theory Spec2Isabelle
  imports Complex_Main "HOL-Library.Word"
begin

section \<open>Pixel buffers and JavaScript numbers\<close>

text \<open>
  \<^verbatim>\<open>addGrain\<close> of \<^verbatim>\<open>src/helpers.js\<close> reads \<^verbatim>\<open>context.getImageData(0, 0, size[0], size[1]).data\<close>,
  where \<^verbatim>\<open>context\<close> is a \<^verbatim>\<open>CanvasRenderingContext2D\<close> (its JSDoc). That array is a
  \<^verbatim>\<open>Uint8ClampedArray\<close>: a fixed-length sequence of unsigned 8-bit values, four per pixel
  (red, green, blue, alpha).

  \<^item> An element is a \<open>8 word\<close>; reading it gives a JavaScript Number, modelled as the
    \<open>real\<close> it denotes. The sums, differences and products of the program are rounded to
    a double (\<open>js_add\<close>, \<open>js_sub\<close>, \<open>js_mul\<close> below) before they are stored.
  \<^item> Storing a Number into an element converts it with the language's \<^verbatim>\<open>ToUint8Clamp\<close>:
    clamp to \<open>[0, 255]\<close>, then round to the nearest integer, ties to the even one.
  \<^item> The array has a fixed length: a store at an index outside it is ignored, and a read
    there gives \<^verbatim>\<open>undefined\<close>, which only ever feeds such an ignored store. No other
    \<^verbatim>\<open>NaN\<close> arises, so \<^verbatim>\<open>ToUint8Clamp\<close> is modelled on the finite Numbers.

  The file \<^verbatim>\<open>src/unnamed/part_000\<close> is an earlier version of the same module: its
  \<^verbatim>\<open>initiateSeed\<close> is the same function, and its \<^verbatim>\<open>addGrain\<close> is what \<^verbatim>\<open>src/helpers.js\<close> calls
  \<^verbatim>\<open>addGrain2\<close>. The model follows \<^verbatim>\<open>src/helpers.js\<close>.
\<close>

type_synonym byte = "8 word"
type_synonym pixels = "byte list"

definition ToUint8Clamp :: "real \<Rightarrow> byte" where
  "ToUint8Clamp x =
     (let clamped = min (max x 0) 255;
          f = \<lfloor>clamped\<rfloor>
      in word_of_int
           (if clamped < of_int f + 1 / 2 then f
            else if clamped > of_int f + 1 / 2 then f + 1
            else if even f then f else f + 1))"

text \<open>\<^verbatim>\<open>px[j] = v\<close> on the typed array.\<close>

definition store :: "pixels \<Rightarrow> nat \<Rightarrow> real \<Rightarrow> pixels" where
  "store px j v = (if j < length px then px[j := ToUint8Clamp v] else px)"

text \<open>
  \<^verbatim>\<open>px[j] = f(px[j])\<close> on the typed array: the compound assignments \<^verbatim>\<open>px[j] += d\<close> and
  \<^verbatim>\<open>px[j] -= d\<close>, and \<^verbatim>\<open>px[j] = 255 - px[j]\<close>.
\<close>

definition assign_op :: "pixels \<Rightarrow> nat \<Rightarrow> (real \<Rightarrow> real) \<Rightarrow> pixels" where
  "assign_op px j f =
     (if j < length px then store px j (f (real (unat (px ! j)))) else px)"


subsection \<open>Numbers: IEEE 754 doubles\<close>

text \<open>
  A JavaScript Number is an IEEE 754 binary64 value. A finite Number is modelled as the
  real it denotes, and every arithmetic operation of the language rounds its exact result
  to the nearest double, ties to the double with the even significand.
  \<^item> \<open>nearest_even\<close> is the nearest integer, ties to the even one.
  \<^item> \<open>ulp x\<close> is the distance between the doubles around \<open>x\<close>: \<open>2\<^sup>e\<^sup>-\<^sup>5\<^sup>2\<close> where
    \<open>2\<^sup>e \<le> \<bar>x\<bar> < 2\<^sup>e\<^sup>+\<^sup>1\<close> (53 significant bits), and \<open>2\<^sup>-\<^sup>1\<^sup>0\<^sup>7\<^sup>4\<close> for the subnormal
    \<open>\<bar>x\<bar> < 2\<^sup>-\<^sup>1\<^sup>0\<^sup>2\<^sup>2\<close>.
  \<^item> \<open>binary64 x\<close> is the double nearest to \<open>x\<close>.
  The infinities and \<^verbatim>\<open>NaN\<close> are not modelled. A result too large for a double (from
  \<open>2\<^sup>1\<^sup>0\<^sup>2\<^sup>4 - 2\<^sup>9\<^sup>7\<^sup>0\<close> on) is an infinity in the program and a real of that size
  here; \<open>ToUint8Clamp\<close> stores 255, or 0 when negative, for either. The two products of
  the program, \<^verbatim>\<open>variant * 0.5\<close> and \<^verbatim>\<open>Math.random() * 1000000\<close>, cannot overflow.
\<close>

definition nearest_even :: "real \<Rightarrow> int" where
  "nearest_even y =
     (let f = \<lfloor>y\<rfloor>
      in if y < of_int f + 1 / 2 then f
         else if y > of_int f + 1 / 2 then f + 1
         else if even f then f else f + 1)"

definition ulp :: "real \<Rightarrow> real" where
  "ulp x = 2 powr of_int (max \<lfloor>log 2 \<bar>x\<bar>\<rfloor> (- 1022) - 52)"

definition binary64 :: "real \<Rightarrow> real" where
  "binary64 x = (if x = 0 then 0 else of_int (nearest_even (x / ulp x)) * ulp x)"

text \<open>The operators \<^verbatim>\<open>+\<close>, \<^verbatim>\<open>-\<close> and \<^verbatim>\<open>*\<close> on Numbers.\<close>

definition js_add :: "real \<Rightarrow> real \<Rightarrow> real" where
  "js_add x y = binary64 (x + y)"

definition js_sub :: "real \<Rightarrow> real \<Rightarrow> real" where
  "js_sub x y = binary64 (x - y)"

definition js_mul :: "real \<Rightarrow> real \<Rightarrow> real" where
  "js_mul x y = binary64 (x * y)"

text \<open>
  For a byte \<open>v\<close> and a Number \<open>d\<close>: the sum \<open>v + d\<close> lies in the range of a byte, and the
  double that \<^verbatim>\<open>v + d\<close> evaluates to is not halfway between two integers. The store of
  such a sum neither saturates nor breaks a tie.
\<close>

definition in_range_untied :: "byte \<Rightarrow> real \<Rightarrow> bool" where
  "in_range_untied v d \<longleftrightarrow>
     0 \<le> real (unat v) + d \<and> real (unat v) + d \<le> 255
     \<and> frac (js_add (real (unat v)) d) \<noteq> 1 / 2"

section \<open>The four grain loops of addGrain\<close>

subsection \<open>invert\<close>

text \<open>
  \<^verbatim>\<open>255 - grainPixels[i]\<close> is a difference of two integers between 0 and 255: it is a
  double, and the subtraction of the language gives it exactly (\<open>invert_exact\<close> below).
\<close>

definition invert_body :: "nat \<Rightarrow> pixels \<Rightarrow> pixels" where
  "invert_body i px =
     (let px1 = assign_op px i (\<lambda>v. 255 - v);
          px2 = assign_op px1 (i + 1) (\<lambda>v. 255 - v);
          px3 = assign_op px2 (i + 2) (\<lambda>v. 255 - v)
      in px3)"

lemma length_store: "length (store px j v) = length px"
  by (simp add: store_def)

lemma length_assign_op: "length (assign_op px j f) = length px"
  by (simp add: assign_op_def length_store)

lemma length_invert_body: "length (invert_body i px) = length px"
  by (simp add: invert_body_def Let_def length_assign_op)

function invert_loop :: "nat \<Rightarrow> pixels \<Rightarrow> pixels" where
  "invert_loop i px =
     (if i < length px then invert_loop (i + 4) (invert_body i px) else px)"
  by pat_completeness auto
termination
  by (relation "measure (\<lambda>(i, px). length px - i)")
     (auto simp: length_invert_body)

declare invert_loop.simps [simp del]

definition invert :: "pixels \<Rightarrow> pixels" where
  "invert px = invert_loop 0 px"

subsection \<open>The random source\<close>

text \<open>
  \<^verbatim>\<open>random.range(min, max)\<close> belongs to the library \<^verbatim>\<open>canvas-sketch-util/random\<close>, which
  is not part of the repository. It is a parameter of the model: a function from the two
  bounds and the generator's state to the Number drawn and the generator's next state.
\<close>

type_synonym 'g random_range = "real \<Rightarrow> real \<Rightarrow> 'g \<Rightarrow> real \<times> 'g"

subsection \<open>colorGrain\<close>

definition colorGrain_body :: "'g random_range \<Rightarrow> nat \<Rightarrow> pixels \<Rightarrow> 'g \<Rightarrow> pixels \<times> 'g" where
  "colorGrain_body rrange i px g =
     (let rMin = - 25;
          rMax = 25;
          (d0, g1) = rrange rMin rMax g;
          px1 = assign_op px (i + 0) (\<lambda>v. js_add v d0);
          (d1, g2) = rrange rMin rMax g1;
          px2 = assign_op px1 (i + 1) (\<lambda>v. js_add v d1);
          (d2, g3) = rrange rMin rMax g2;
          px3 = assign_op px2 (i + 2) (\<lambda>v. js_add v d2);
          px4 = store px3 (i + 3) 255
      in (px4, g3))"

lemma length_colorGrain_body: "length (fst (colorGrain_body rrange i px g)) = length px"
  by (simp add: colorGrain_body_def Let_def split_def length_assign_op length_store)

function colorGrain_loop :: "'g random_range \<Rightarrow> nat \<Rightarrow> pixels \<Rightarrow> 'g \<Rightarrow> pixels \<times> 'g" where
  "colorGrain_loop rrange i px g =
     (if i < length px
      then (case colorGrain_body rrange i px g of (px', g') \<Rightarrow> colorGrain_loop rrange (i + 4) px' g')
      else (px, g))"
  by pat_completeness auto
termination
proof (relation "measure (\<lambda>(rrange, i, px, g). length px - i)")
  show "wf (measure (\<lambda>(rrange :: 'g random_range, i, px :: pixels, g :: 'g). length px - i))"
    by simp
next
  fix rrange :: "'g random_range" and i px g x1 x2
  assume "i < length px" and "(x1, x2) = colorGrain_body rrange i px g"
  then have "length x1 = length px"
    using length_colorGrain_body [of rrange i px g] by (metis fst_conv)
  with \<open>i < length px\<close>
  show "((rrange, i + 4, x1, x2), (rrange, i, px, g))
          \<in> measure (\<lambda>(rrange, i, px, g). length px - i)"
    by simp
qed

declare colorGrain_loop.simps [simp del]

definition colorGrain :: "'g random_range \<Rightarrow> pixels \<Rightarrow> 'g \<Rightarrow> pixels \<times> 'g" where
  "colorGrain rrange px g = colorGrain_loop rrange 0 px g"

subsection \<open>parallelGrain\<close>

definition parallelGrain_body :: "'g random_range \<Rightarrow> nat \<Rightarrow> pixels \<Rightarrow> 'g \<Rightarrow> pixels \<times> 'g" where
  "parallelGrain_body rrange i px g =
     (let (variant, g1) = rrange (- 15) 15 g;
          px1 = assign_op px (i + 0) (\<lambda>v. js_add v variant);
          px2 = assign_op px1 (i + 1) (\<lambda>v. js_add v variant);
          px3 = assign_op px2 (i + 2) (\<lambda>v. js_add v variant);
          px4 = store px3 (i + 3) 255
      in (px4, g1))"

lemma length_parallelGrain_body: "length (fst (parallelGrain_body rrange i px g)) = length px"
  by (simp add: parallelGrain_body_def Let_def split_def length_assign_op length_store)

function parallelGrain_loop :: "'g random_range \<Rightarrow> nat \<Rightarrow> pixels \<Rightarrow> 'g \<Rightarrow> pixels \<times> 'g" where
  "parallelGrain_loop rrange i px g =
     (if i < length px
      then (case parallelGrain_body rrange i px g of (px', g') \<Rightarrow> parallelGrain_loop rrange (i + 4) px' g')
      else (px, g))"
  by pat_completeness auto
termination
proof (relation "measure (\<lambda>(rrange, i, px, g). length px - i)")
  show "wf (measure (\<lambda>(rrange :: 'g random_range, i, px :: pixels, g :: 'g). length px - i))"
    by simp
next
  fix rrange :: "'g random_range" and i px g x1 x2
  assume "i < length px" and "(x1, x2) = parallelGrain_body rrange i px g"
  then have "length x1 = length px"
    using length_parallelGrain_body [of rrange i px g] by (metis fst_conv)
  with \<open>i < length px\<close>
  show "((rrange, i + 4, x1, x2), (rrange, i, px, g))
          \<in> measure (\<lambda>(rrange, i, px, g). length px - i)"
    by simp
qed

declare parallelGrain_loop.simps [simp del]

definition parallelGrain :: "'g random_range \<Rightarrow> pixels \<Rightarrow> 'g \<Rightarrow> pixels \<times> 'g" where
  "parallelGrain rrange px g = parallelGrain_loop rrange 0 px g"

subsection \<open>redGrain\<close>

definition redGrain_body :: "'g random_range \<Rightarrow> nat \<Rightarrow> pixels \<Rightarrow> 'g \<Rightarrow> pixels \<times> 'g" where
  "redGrain_body rrange i px g =
     (let (variant, g1) = rrange 50 100 g;
          px1 = assign_op px (i + 0) (\<lambda>v. js_add v variant);
          px2 = assign_op px1 (i + 1) (\<lambda>v. js_sub v (js_mul variant 0.5));
          px3 = assign_op px2 (i + 2) (\<lambda>v. js_sub v (js_mul variant 0.5))
      in (px3, g1))"

lemma length_redGrain_body: "length (fst (redGrain_body rrange i px g)) = length px"
  by (simp add: redGrain_body_def Let_def split_def length_assign_op)

function redGrain_loop :: "'g random_range \<Rightarrow> nat \<Rightarrow> pixels \<Rightarrow> 'g \<Rightarrow> pixels \<times> 'g" where
  "redGrain_loop rrange i px g =
     (if i < length px
      then (case redGrain_body rrange i px g of (px', g') \<Rightarrow> redGrain_loop rrange (i + 4) px' g')
      else (px, g))"
  by pat_completeness auto
termination
proof (relation "measure (\<lambda>(rrange, i, px, g). length px - i)")
  show "wf (measure (\<lambda>(rrange :: 'g random_range, i, px :: pixels, g :: 'g). length px - i))"
    by simp
next
  fix rrange :: "'g random_range" and i px g x1 x2
  assume "i < length px" and "(x1, x2) = redGrain_body rrange i px g"
  then have "length x1 = length px"
    using length_redGrain_body [of rrange i px g] by (metis fst_conv)
  with \<open>i < length px\<close>
  show "((rrange, i + 4, x1, x2), (rrange, i, px, g))
          \<in> measure (\<lambda>(rrange, i, px, g). length px - i)"
    by simp
qed

declare redGrain_loop.simps [simp del]

definition redGrain :: "'g random_range \<Rightarrow> pixels \<Rightarrow> 'g \<Rightarrow> pixels \<times> 'g" where
  "redGrain rrange px g = redGrain_loop rrange 0 px g"

section \<open>addGrain\<close>

text \<open>
  \<^verbatim>\<open>function addGrain(context, size, style = "parallelGrain")\<close>. The canvas is modelled by
  the pixels of its rectangle \<open>(0, 0, size[0], size[1])\<close>: \<^verbatim>\<open>getImageData\<close> copies them into
  \<^verbatim>\<open>grainPixels\<close>, and each of the four inner functions ends with \<^verbatim>\<open>putImageData(grain, 0, 0)\<close>,
  which writes the array back. The \<^verbatim>\<open>switch\<close> has no \<^verbatim>\<open>default\<close> case: for any other style
  nothing is written and no number is drawn. The style argument is \<open>None\<close> when the caller
  omits it, and the parameter then takes its default value.

  The result is the canvas rectangle and the generator's state after the call.
\<close>

definition addGrain :: "'g random_range \<Rightarrow> pixels \<Rightarrow> string option \<Rightarrow> 'g \<Rightarrow> pixels \<times> 'g" where
  "addGrain rrange canvas style_arg g =
     (let style = (case style_arg of None \<Rightarrow> ''parallelGrain'' | Some s \<Rightarrow> s);
          grainPixels = canvas
      in if style = ''colorful'' then colorGrain rrange grainPixels g
         else if style = ''parallel'' then parallelGrain rrange grainPixels g
         else if style = ''red'' then redGrain rrange grainPixels g
         else if style = ''invert'' then (invert grainPixels, g)
         else (canvas, g))"

text \<open>
  A random source for tests, as the specification suggests (``a fixed-sequence fake
  generator''): its state is the list of the draws still to come; with none left it
  returns the lower bound.
\<close>

definition fixed_range :: "(real list) random_range" where
  "fixed_range lo hi ds = (case ds of [] \<Rightarrow> (lo, []) | d # ds' \<Rightarrow> (d, ds'))"

text \<open>
  The generator's state after \<open>n\<close> calls of \<^verbatim>\<open>random.range(lo, hi)\<close>, and the Number its
  next call returns then: the draws of a run, counted from 0.
\<close>

primrec advance :: "'g random_range \<Rightarrow> real \<Rightarrow> real \<Rightarrow> nat \<Rightarrow> 'g \<Rightarrow> 'g" where
  "advance rrange lo hi 0 g = g"
| "advance rrange lo hi (Suc n) g = advance rrange lo hi n (snd (rrange lo hi g))"

definition draw :: "'g random_range \<Rightarrow> real \<Rightarrow> real \<Rightarrow> nat \<Rightarrow> 'g \<Rightarrow> real" where
  "draw rrange lo hi n g = fst (rrange lo hi (advance rrange lo hi n g))"

text \<open>
  Two random sources, each with its own kind of state, deliver the same draws from the
  states \<open>g\<close> and \<open>h\<close> when a relation \<open>R\<close> holds between \<open>g\<close> and \<open>h\<close> such that related
  states give the same Number to every call and are related again afterwards.
\<close>

definition same_draws :: "('g \<Rightarrow> 'h \<Rightarrow> bool) \<Rightarrow> 'g random_range \<Rightarrow> 'h random_range \<Rightarrow> bool" where
  "same_draws R r1 r2 =
     (\<forall>lo hi g h. R g h \<longrightarrow>
        fst (r1 lo hi g) = fst (r2 lo hi h) \<and> R (snd (r1 lo hi g)) (snd (r2 lo hi h)))"

section \<open>initiateSeed\<close>

text \<open>
  The values \<^verbatim>\<open>initiateSeed\<close> can be called with: a number or a string (its JSDoc), or
  nothing, and the other primitive values that are falsy. \<open>JNum\<close> holds the finite
  Numbers; the infinities are left out.
\<close>

datatype jsval = JUndefined | JNull | JBool bool | JNum real | JNaN | JStr string

text \<open>\<^verbatim>\<open>!v\<close>: the values that convert to false.\<close>

fun falsy :: "jsval \<Rightarrow> bool" where
  "falsy JUndefined = True"
| "falsy JNull = True"
| "falsy (JBool b) = (\<not> b)"
| "falsy (JNum x) = (x = 0)"
| "falsy JNaN = True"
| "falsy (JStr s) = (s = [])"

text \<open>The decimal digits of a natural number.\<close>

fun decimal :: "nat \<Rightarrow> string" where
  "decimal n =
     (if n < 10 then [''0123456789'' ! n]
      else decimal (n div 10) @ [''0123456789'' ! (n mod 10)])"

declare decimal.simps [simp del]

text \<open>
  \<^verbatim>\<open>String(v)\<close>. A Number that is an integer below \<open>2\<^sup>5\<^sup>3\<close> in absolute value is written
  with all its decimal digits, with a minus sign when negative. How the language writes
  the other Numbers (fractions, exponents, and the larger integers, whose digits it cuts
  to the shortest that read back as the same double) is the parameter \<open>other\<close>.
\<close>

definition Number_toString :: "(real \<Rightarrow> string) \<Rightarrow> real \<Rightarrow> string" where
  "Number_toString other x =
     (if x = of_int \<lfloor>x\<rfloor> \<and> \<bar>x\<bar> < 2 ^ 53
      then (if x < 0 then ''-'' @ decimal (nat \<lfloor>- x\<rfloor>) else decimal (nat \<lfloor>x\<rfloor>))
      else other x)"

fun String :: "(real \<Rightarrow> string) \<Rightarrow> jsval \<Rightarrow> string" where
  "String other JUndefined = ''undefined''"
| "String other JNull = ''null''"
| "String other (JBool b) = (if b then ''true'' else ''false'')"
| "String other (JNum x) = Number_toString other x"
| "String other JNaN = ''NaN''"
| "String other (JStr s) = s"

text \<open>
  The random state of the program. \<^verbatim>\<open>canvas-sketch-util/random\<close>, the source \<^verbatim>\<open>addGrain\<close> and
  the drawing functions draw from, has a generator of its own only once the main script
  has seeded it (\<^verbatim>\<open>random.setSeed\<close>): \<open>seeded\<close> is then \<open>Some\<close> of that generator's state.
  Until then (\<open>None\<close>) the library takes its numbers from the engine's \<^verbatim>\<open>Math.random\<close>,
  whose state is \<open>math\<close>.
\<close>

record ('g, 'm) generators =
  seeded :: "'g option"
  math :: 'm

text \<open>
  \<^verbatim>\<open>random.range(min, max)\<close> of the library on this state. The library is not part of the
  repository; its three parts are parameters. \<open>seeded_range\<close> is the seeded generator,
  \<open>Math_random\<close> is \<^verbatim>\<open>Math.random()\<close>, from the state of that generator to the Number drawn
  and the next state, and \<open>scale lo hi v\<close> is how the library makes a Number between the
  bounds from the Number \<open>v\<close> that \<^verbatim>\<open>Math.random()\<close> gave (\<^verbatim>\<open>v * (max - min) + min\<close>).
\<close>

definition library_range ::
  "'g random_range \<Rightarrow> (real \<Rightarrow> real \<Rightarrow> real \<Rightarrow> real) \<Rightarrow> ('m \<Rightarrow> real \<times> 'm)
     \<Rightarrow> (('g, 'm) generators) random_range" where
  "library_range seeded_range scale Math_random lo hi w =
     (case seeded w of
        Some g \<Rightarrow> (case seeded_range lo hi g of (d, g') \<Rightarrow> (d, w\<lparr>seeded := Some g'\<rparr>))
      | None \<Rightarrow> (case Math_random (math w) of (v, m') \<Rightarrow> (scale lo hi v, w\<lparr>math := m'\<rparr>)))"

text \<open>
  \<^verbatim>\<open>function initiateSeed(seed = 0)\<close>. The product \<^verbatim>\<open>Math.random() * 1000000\<close> is rounded to
  a double before \<^verbatim>\<open>Math.floor\<close> takes its integer part.
\<close>

definition initiateSeed ::
  "(real \<Rightarrow> string) \<Rightarrow> ('m \<Rightarrow> real \<times> 'm) \<Rightarrow> jsval \<Rightarrow> ('g, 'm) generators
     \<Rightarrow> string \<times> ('g, 'm) generators" where
  "initiateSeed other Math_random seed_arg w =
     (let seed = (if seed_arg = JUndefined then JNum 0 else seed_arg);
          seedToUse = seed
      in if seed = JNum 0 \<or> falsy seed
         then (let (r, m') = Math_random (math w);
                   seedToUse = JStr (String other (JNum (of_int \<lfloor>js_mul r 1000000\<rfloor>)))
               in (String other seedToUse, w\<lparr>math := m'\<rparr>))
         else (String other seedToUse, w))"

section \<open>Rounding to a double\<close>

lemma nearest_even_of_int: "nearest_even (of_int n) = n"
  by (simp add: nearest_even_def)

lemma nearest_even_le: "y \<le> of_int n \<Longrightarrow> nearest_even y \<le> n"
proof -
  assume le: "y \<le> of_int n"
  show ?thesis
  proof (cases "y = of_int n")
    case True
    then show ?thesis by (simp add: nearest_even_of_int)
  next
    case False
    with le have "y < of_int n" by simp
    then have "\<lfloor>y\<rfloor> < n"
      by (simp add: floor_less_iff)
    then have "\<lfloor>y\<rfloor> + 1 \<le> n" by simp
    moreover have "nearest_even y \<le> \<lfloor>y\<rfloor> + 1"
      by (simp add: nearest_even_def Let_def)
    ultimately show ?thesis by linarith
  qed
qed

lemma nearest_even_ge: "of_int n \<le> y \<Longrightarrow> n \<le> nearest_even y"
proof -
  assume "of_int n \<le> y"
  then have "n \<le> \<lfloor>y\<rfloor>"
    by (simp add: le_floor_iff)
  moreover have "\<lfloor>y\<rfloor> \<le> nearest_even y"
    by (simp add: nearest_even_def Let_def)
  ultimately show ?thesis by linarith
qed

lemma nearest_even_bounds:
  "y - 1 / 2 \<le> of_int (nearest_even y)" "of_int (nearest_even y) \<le> y + 1 / 2"
proof -
  define f where "f = \<lfloor>y\<rfloor>"
  have lo: "real_of_int f \<le> y" and hi: "y < real_of_int f + 1"
    unfolding f_def by linarith+
  have eq: "nearest_even y =
      (if y < of_int f + 1 / 2 then f
       else if y > of_int f + 1 / 2 then f + 1
       else if even f then f else f + 1)"
    by (simp add: nearest_even_def Let_def f_def)
  show "y - 1 / 2 \<le> of_int (nearest_even y)"
    unfolding eq using lo hi by auto
  show "of_int (nearest_even y) \<le> y + 1 / 2"
    unfolding eq using lo hi by auto
qed

lemma ulp_pos: "0 < ulp x"
  by (simp add: ulp_def)

lemma binary64_nonzero: "x \<noteq> 0 \<Longrightarrow> binary64 x = of_int (nearest_even (x / ulp x)) * ulp x"
  by (simp add: binary64_def)

lemma floor_log2_less:
  assumes "x \<noteq> 0" and "\<bar>x\<bar> < 2 powr of_int b"
  shows "\<lfloor>log 2 \<bar>x\<bar>\<rfloor> < b"
proof -
  have "log 2 \<bar>x\<bar> < of_int b"
    using assms by (simp add: log_less_iff)
  then show ?thesis
    by (simp add: floor_less_iff)
qed

lemma ulp_divides:
  assumes "x \<noteq> 0" and "\<bar>x\<bar> < 2 powr of_int b" and "- 1021 \<le> b"
  shows "\<exists>k :: nat. 2 powr of_int (b - 53) = 2 ^ k * ulp x"
proof -
  define E where "E = max \<lfloor>log 2 \<bar>x\<bar>\<rfloor> (- 1022)"
  have "E \<le> b - 1"
    using floor_log2_less [OF assms(1,2)] assms(3) by (simp add: E_def)
  then obtain k :: nat where k: "int k = b - 1 - E"
    by (metis diff_ge_0_iff_ge nonneg_int_cases)
  have "2 powr of_int (b - 53) = (2 :: real) powr (of_int (int k) + of_int (E - 52))"
    using k by simp
  also have "\<dots> = 2 powr of_int (int k) * 2 powr of_int (E - 52)"
    by (simp only: powr_add)
  also have "(2 :: real) powr of_int (int k) = 2 ^ k"
    by (simp add: powr_realpow)
  finally show ?thesis
    by (auto simp add: ulp_def E_def)
qed

lemma grid_over_ulp:
  assumes "x \<noteq> 0" and "\<bar>x\<bar> < 2 powr of_int b" and "- 1021 \<le> b"
  shows "\<exists>n :: int. of_int m * 2 powr of_int (b - 53) / ulp x = of_int n"
proof -
  obtain k :: nat where "2 powr of_int (b - 53) = 2 ^ k * ulp x"
    using ulp_divides [OF assms] by blast
  then have "of_int m * 2 powr of_int (b - 53) / ulp x = of_int (m * 2 ^ k)"
    using ulp_pos [of x] by simp
  then show ?thesis ..
qed

lemma binary64_le_grid:
  assumes "\<bar>x\<bar> < 2 powr of_int b" and "- 1021 \<le> b"
    and "x \<le> of_int m * 2 powr of_int (b - 53)"
  shows "binary64 x \<le> of_int m * 2 powr of_int (b - 53)"
proof (cases "x = 0")
  case True
  with assms(3) show ?thesis by (simp add: binary64_def)
next
  case False
  obtain n :: int where n: "of_int m * 2 powr of_int (b - 53) / ulp x = of_int n"
    using grid_over_ulp [OF False assms(1,2)] by blast
  have "x / ulp x \<le> of_int m * 2 powr of_int (b - 53) / ulp x"
    using assms(3) ulp_pos [of x] by (simp add: divide_right_mono)
  then have "nearest_even (x / ulp x) \<le> n"
    unfolding n by (rule nearest_even_le)
  then have "of_int (nearest_even (x / ulp x)) * ulp x \<le> of_int n * ulp x"
    using ulp_pos [of x] by simp
  also have "of_int n * ulp x = of_int m * 2 powr of_int (b - 53)"
    using n ulp_pos [of x] by (simp add: field_simps)
  finally show ?thesis
    using False by (simp add: binary64_def)
qed

lemma binary64_ge_grid:
  assumes "\<bar>x\<bar> < 2 powr of_int b" and "- 1021 \<le> b"
    and "of_int m * 2 powr of_int (b - 53) \<le> x"
  shows "of_int m * 2 powr of_int (b - 53) \<le> binary64 x"
proof (cases "x = 0")
  case True
  with assms(3) show ?thesis by (simp add: binary64_def)
next
  case False
  obtain n :: int where n: "of_int m * 2 powr of_int (b - 53) / ulp x = of_int n"
    using grid_over_ulp [OF False assms(1,2)] by blast
  have "of_int m * 2 powr of_int (b - 53) / ulp x \<le> x / ulp x"
    using assms(3) ulp_pos [of x] by (simp add: divide_right_mono)
  then have "n \<le> nearest_even (x / ulp x)"
    unfolding n by (rule nearest_even_ge)
  then have "of_int n * ulp x \<le> of_int (nearest_even (x / ulp x)) * ulp x"
    using ulp_pos [of x] by simp
  moreover have "of_int n * ulp x = of_int m * 2 powr of_int (b - 53)"
    using n ulp_pos [of x] by (simp add: field_simps)
  ultimately show ?thesis
    using False by (simp add: binary64_def)
qed


lemma binary64_dyadic:
  assumes "\<bar>m\<bar> < 2 ^ 53" and "- 1074 \<le> j"
  shows "binary64 (of_int m * 2 powr of_int j) = of_int m * 2 powr of_int j"
proof -
  define x where "x = real_of_int m * 2 powr of_int j"
  have "real_of_int \<bar>m\<bar> < 2 ^ 53"
    using assms(1) by (metis of_int_less_iff of_int_numeral of_int_power)
  then have "\<bar>x\<bar> < 2 ^ 53 * 2 powr of_int j"
    by (simp add: x_def abs_mult)
  also have "\<dots> = 2 powr of_int (j + 53)"
    by (simp add: powr_add powr_realpow [symmetric])
  finally have small: "\<bar>x\<bar> < 2 powr of_int (j + 53)" .
  have b: "- 1021 \<le> j + 53"
    using assms(2) by simp
  have x: "x = of_int m * 2 powr of_int (j + 53 - 53)"
    by (simp add: x_def)
  have "binary64 x \<le> of_int m * 2 powr of_int (j + 53 - 53)"
    using small b by (rule binary64_le_grid) (simp add: x_def)
  moreover have "of_int m * 2 powr of_int (j + 53 - 53) \<le> binary64 x"
    using small b by (rule binary64_ge_grid) (simp add: x_def)
  ultimately show ?thesis
    unfolding x_def by simp
qed

lemma binary64_of_int: "\<bar>m\<bar> < 2 ^ 53 \<Longrightarrow> binary64 (of_int m) = of_int m"
  using binary64_dyadic [of m 0] by simp

lemma binary64_half: "\<bar>m\<bar> < 2 ^ 53 \<Longrightarrow> binary64 (of_int m / 2) = of_int m / 2"
  using binary64_dyadic [of m "- 1"] by (simp add: powr_minus field_simps)

lemma binary64_numeral [simp]:
  "(numeral w :: int) < 2 ^ 53 \<Longrightarrow> binary64 (numeral w) = numeral w"
  using binary64_of_int [of "numeral w"] by simp

lemma binary64_neg_numeral [simp]:
  "(numeral w :: int) < 2 ^ 53 \<Longrightarrow> binary64 (- numeral w) = - numeral w"
  using binary64_of_int [of "- numeral w"] by simp

lemma binary64_numeral_half [simp]:
  "(numeral w :: int) < 2 ^ 53 \<Longrightarrow> binary64 (numeral w / 2) = numeral w / 2"
  using binary64_half [of "numeral w"] by simp

lemma binary64_neg_numeral_half [simp]:
  "(numeral w :: int) < 2 ^ 53 \<Longrightarrow> binary64 (- (numeral w / 2)) = - (numeral w / 2)"
  using binary64_half [of "- numeral w"] by simp

lemma binary64_0 [simp]: "binary64 0 = 0"
  by (simp add: binary64_def)

lemma binary64_1 [simp]: "binary64 1 = 1"
  using binary64_of_int [of 1] by simp

lemma binary64_one_half [simp]: "binary64 (1 / 2) = 1 / 2"
  using binary64_half [of 1] by simp

lemma binary64_nonneg: "0 \<le> x \<Longrightarrow> 0 \<le> binary64 x"
proof (cases "x = 0")
  case True
  then show ?thesis by simp
next
  case False
  assume "0 \<le> x"
  then have "real_of_int 0 \<le> x / ulp x"
    using ulp_pos [of x] by simp
  then have "0 \<le> nearest_even (x / ulp x)"
    by (rule nearest_even_ge)
  then show ?thesis
    using False ulp_pos [of x] by (simp add: binary64_def)
qed

text \<open>Half-integers are grid points for every Number below 256.\<close>

lemma half_grid: "(of_int h / 2 :: real) = of_int (h * 2 ^ 44) * 2 powr of_int (8 - 53)"
proof -
  have p: "(2 :: real) powr of_int (8 - 53) = 1 / 2 ^ 45"
    by (simp add: powr_minus_divide powr_realpow [symmetric])
  show ?thesis
    unfolding p by simp
qed

lemma binary64_le_half_integer:
  assumes "\<bar>s\<bar> < 256" and "s \<le> of_int h / 2"
  shows "binary64 s \<le> of_int h / 2"
proof -
  have "\<bar>s\<bar> < 2 powr of_int 8"
    using assms(1) by (simp add: powr_realpow [symmetric])
  then show ?thesis
    unfolding half_grid
    by (rule binary64_le_grid) (use assms(2) in \<open>simp_all only: half_grid [symmetric]\<close>)
qed

lemma binary64_ge_half_integer:
  assumes "\<bar>s\<bar> < 256" and "of_int h / 2 \<le> s"
  shows "of_int h / 2 \<le> binary64 s"
proof -
  have "\<bar>s\<bar> < 2 powr of_int 8"
    using assms(1) by (simp add: powr_realpow [symmetric])
  then show ?thesis
    unfolding half_grid
    by (rule binary64_ge_grid) (use assms(2) in \<open>simp_all only: half_grid [symmetric]\<close>)
qed


lemma binary64_upper_20:
  assumes "0 \<le> x" and "x < 2 ^ 20"
  shows "binary64 x \<le> x + 1 / 2 ^ 34"
proof (cases "x = 0")
  case True
  then show ?thesis by simp
next
  case False
  have "\<bar>x\<bar> < 2 powr of_int 20"
    using assms by (simp add: powr_realpow [symmetric])
  then obtain k :: nat where k: "2 powr of_int (20 - 53) = 2 ^ k * ulp x"
    using ulp_divides [OF False, of 20] by auto
  have "ulp x \<le> 2 ^ k * ulp x"
    using ulp_pos [of x] by simp
  also have "\<dots> = 1 / 2 ^ 33"
    unfolding k [symmetric] by (simp add: powr_minus_divide powr_realpow [symmetric])
  finally have u: "ulp x \<le> 1 / 2 ^ 33" .
  have "binary64 x = of_int (nearest_even (x / ulp x)) * ulp x"
    using False by (rule binary64_nonzero)
  also have "\<dots> \<le> (x / ulp x + 1 / 2) * ulp x"
    using nearest_even_bounds(2) [of "x / ulp x"] ulp_pos [of x]
    by (simp only: mult_le_cancel_right_pos)
  also have "\<dots> = x + ulp x / 2"
    using ulp_pos [of x] by (simp add: field_simps)
  also have "\<dots> \<le> x + 1 / 2 ^ 34"
    using u by simp
  finally show ?thesis .
qed

lemma floor_log2_eq:
  assumes "2 powr of_int e \<le> \<bar>x\<bar>" and "\<bar>x\<bar> < 2 powr of_int (e + 1)"
  shows "\<lfloor>log 2 \<bar>x\<bar>\<rfloor> = e"
proof -
  have pos: "0 < \<bar>x\<bar>"
    using assms(1) by (smt (verit) powr_gt_zero)
  have "of_int e \<le> log 2 \<bar>x\<bar>"
    using assms(1) pos by (simp add: le_log_iff)
  moreover have "log 2 \<bar>x\<bar> < of_int e + 1"
    using assms(2) pos by (simp add: log_less_iff)
  ultimately show ?thesis
    by (simp add: floor_eq_iff)
qed

lemma double_below_one:
  assumes "binary64 r = r" and "0 \<le> r" and "r < 1"
  shows "r \<le> 1 - 1 / 2 ^ 53"
proof (cases "r < 1 / 2")
  case True
  then show ?thesis by simp
next
  case False
  then have half: "1 / 2 \<le> r" by simp
  then have nz: "r \<noteq> 0" by auto
  define P :: real where "P = 2 ^ 53"
  have P: "0 < P"
    by (simp add: P_def)
  have "\<lfloor>log 2 \<bar>r\<bar>\<rfloor> = - 1"
    using half assms(3) by (intro floor_log2_eq) (simp_all add: powr_minus_divide)
  then have "ulp r = 2 powr of_int (- 53)"
    by (simp add: ulp_def)
  also have "\<dots> = 1 / P"
    unfolding P_def by (simp add: powr_minus_divide powr_realpow [symmetric])
  finally have u: "ulp r = 1 / P" .
  define N where "N = nearest_even (r / ulp r)"
  have "r = of_int N * ulp r"
    using assms(1) nz unfolding N_def by (simp only: binary64_def if_False)
  then have r: "r = of_int N / P"
    by (simp only: u) simp
  with assms(3) P have "real_of_int N < P"
    by (simp add: divide_less_eq)
  then have "real_of_int N < real_of_int (2 ^ 53)"
    by (simp only: P_def of_int_power of_int_numeral)
  then have "N < 2 ^ 53"
    by (simp only: of_int_less_iff)
  then have "N \<le> 2 ^ 53 - 1"
    by simp
  then have "real_of_int N \<le> real_of_int (2 ^ 53 - 1)"
    by (simp only: of_int_le_iff)
  then have "real_of_int N \<le> P - 1"
    by (simp only: P_def of_int_power of_int_numeral of_int_diff of_int_1)
  then have "real_of_int N / P \<le> (P - 1) / P"
    using P by (simp only: divide_le_cancel) simp
  also have "(P - 1) / P = 1 - 1 / P"
    using P by (simp add: field_simps)
  finally have "r \<le> 1 - 1 / P"
    by (simp only: r)
  then show ?thesis
    by (simp only: P_def)
qed

lemma fresh_seed_range:
  assumes "binary64 r = r" and "0 \<le> r" and "r < 1"
  shows "0 \<le> \<lfloor>binary64 (r * 1000000)\<rfloor>" and "\<lfloor>binary64 (r * 1000000)\<rfloor> \<le> 999999"
proof -
  have nonneg: "0 \<le> r * 1000000"
    using assms(2) by simp
  then have "0 \<le> binary64 (r * 1000000)"
    by (rule binary64_nonneg)
  then show "0 \<le> \<lfloor>binary64 (r * 1000000)\<rfloor>"
    by simp
  have "r \<le> 1 - 1 / 2 ^ 53"
    using assms by (rule double_below_one)
  then have le: "r * 1000000 \<le> 1000000 - 1000000 / 2 ^ 53"
    by simp
  then have "r * 1000000 < 2 ^ 20"
    by simp
  with nonneg have "binary64 (r * 1000000) \<le> r * 1000000 + 1 / 2 ^ 34"
    by (rule binary64_upper_20)
  with le have "binary64 (r * 1000000) \<le> 1000000 - 1000000 / 2 ^ 53 + 1 / 2 ^ 34"
    by simp
  also have "\<dots> < 1000000"
    by simp
  finally have "\<lfloor>binary64 (r * 1000000)\<rfloor> < 1000000"
    by (simp add: floor_less_iff)
  then show "\<lfloor>binary64 (r * 1000000)\<rfloor> \<le> 999999"
    by simp
qed

text \<open>The difference \<^verbatim>\<open>255 - grainPixels[i]\<close> of the invert loop is exact.\<close>

lemma invert_exact: "js_sub 255 (real (unat (v :: byte))) = 255 - real (unat v)"
proof -
  have "255 - real (unat v) = real_of_int (255 - uint v)"
    by simp
  moreover have "\<bar>255 - uint v\<bar> < 2 ^ 53"
  proof -
    have "0 \<le> uint v" and "uint v < 256"
      using uint_bounded [of v] by simp_all
    then have "\<bar>255 - uint v\<bar> \<le> 255"
      by linarith
    then show ?thesis
      by simp
  qed
  ultimately show ?thesis
    unfolding js_sub_def by (simp only: binary64_of_int)
qed

subsection \<open>Doubles by their binade, and stores of sums\<close>

lemma binary64_in_binade:
  assumes "2 powr of_int e \<le> \<bar>x\<bar>" and "\<bar>x\<bar> < 2 powr of_int (e + 1)" and "- 1022 \<le> e"
  shows "binary64 x = of_int (nearest_even (x / 2 powr of_int (e - 52))) * 2 powr of_int (e - 52)"
proof -
  have "\<lfloor>log 2 \<bar>x\<bar>\<rfloor> = e"
    using assms(1,2) by (rule floor_log2_eq)
  then have u: "ulp x = 2 powr of_int (e - 52)"
    using assms(3) by (simp add: ulp_def)
  have "x \<noteq> 0"
    using assms(1) by (smt (verit) abs_zero powr_gt_zero)
  then show ?thesis
    by (simp add: binary64_def u)
qed

lemma binary64_numeral_quarter [simp]:
  "(numeral w :: int) < 2 ^ 53 \<Longrightarrow> binary64 (numeral w / 4) = numeral w / 4"
  using binary64_dyadic [of "numeral w" "- 2"] by (simp add: powr_minus_divide)

section \<open>Stores and single loop iterations\<close>

lemma ToUint8Clamp_of_int:
  assumes "0 \<le> k" and "k \<le> 255"
  shows "ToUint8Clamp (of_int k) = word_of_int k"
proof -
  have "min (max (real_of_int k) 0) 255 = of_int k"
    using assms by simp
  then show ?thesis
    by (simp add: ToUint8Clamp_def Let_def)
qed

lemma ToUint8Clamp_255: "ToUint8Clamp 255 = 255"
  using ToUint8Clamp_of_int [of 255] by simp

lemma ToUint8Clamp_complement: "ToUint8Clamp (255 - unsigned (v :: byte)) = 255 - v"
proof -
  have b1: "0 \<le> 255 - uint v"
    using uint_bounded [of v] by simp
  have b2: "255 - uint v \<le> 255"
    by simp
  have eq: "255 - unsigned v = real_of_int (255 - uint v)"
    by simp
  have "ToUint8Clamp (real_of_int (255 - uint v)) = word_of_int (255 - uint v)"
    by (rule ToUint8Clamp_of_int [OF b1 b2])
  also have "word_of_int (255 - uint v) = 255 - v"
    by simp
  finally show ?thesis
    by (simp only: eq)
qed

lemma unat_complement: "unat (255 - (v :: byte)) = 255 - unat v"
proof -
  have "unat v < 256"
    using unsigned_less [of v, where ?'a = nat] by simp
  then have "v \<le> 255"
    by (simp add: word_le_nat_alt)
  then show ?thesis
    by (simp add: unat_sub)
qed

lemma assign_op_nth:
  "j < length px \<Longrightarrow>
     assign_op px k f ! j = (if j = k then ToUint8Clamp (f (real (unat (px ! j)))) else px ! j)"
  by (simp add: assign_op_def store_def)

lemma store_nth:
  "j < length px \<Longrightarrow> store px k v ! j = (if j = k then ToUint8Clamp v else px ! j)"
  by (simp add: store_def)

lemma ToUint8Clamp_nearest:
  assumes "of_int k - 1 / 2 < t" and "t < of_int k + 1 / 2" and "0 \<le> k" and "k \<le> 255"
  shows "ToUint8Clamp t = word_of_int k"
proof -
  define c where "c = min (max t 0) 255"
  have k: "0 \<le> real_of_int k" "real_of_int k \<le> 255"
    using assms(3,4) by simp_all
  have lo: "of_int k - 1 / 2 < c" and hi: "c < of_int k + 1 / 2"
    using assms(1,2) k by (auto simp add: c_def min_def max_def)
  have "ToUint8Clamp t = word_of_int (nearest_even c)"
    by (simp add: ToUint8Clamp_def nearest_even_def Let_def c_def)
  moreover have "nearest_even c = k"
  proof (rule antisym)
    have "of_int (nearest_even c) \<le> c + 1 / 2"
      by (rule nearest_even_bounds)
    with hi have "real_of_int (nearest_even c) < of_int k + 1"
      by simp
    then have "nearest_even c < k + 1"
      by (metis of_int_less_iff of_int_add of_int_1)
    then show "nearest_even c \<le> k"
      by simp
    have "c - 1 / 2 \<le> of_int (nearest_even c)"
      by (rule nearest_even_bounds)
    with lo have "real_of_int k - 1 < of_int (nearest_even c)"
      by simp
    then have "k - 1 < nearest_even c"
      by (metis of_int_less_iff of_int_diff of_int_1)
    then show "k \<le> nearest_even c"
      by simp
  qed
  ultimately show ?thesis
    by simp
qed

lemma frac_half: "frac (of_int n + 1 / 2 :: real) = 1 / 2"
proof -
  have "\<lfloor>of_int n + 1 / 2 :: real\<rfloor> = n"
    by (simp add: floor_eq_iff)
  then show ?thesis
    by (simp add: frac_def)
qed

lemma stored_difference:
  assumes "in_range_untied v d"
  shows "uint (ToUint8Clamp (js_add (real (unat v)) d)) - uint v = \<lfloor>d + 1 / 2\<rfloor>"
proof -
  define s where "s = real (unat v) + d"
  define t where "t = binary64 s"
  define k where "k = \<lfloor>s + 1 / 2\<rfloor>"
  have range: "0 \<le> s" "s \<le> 255" and untied: "frac t \<noteq> 1 / 2"
    using assms by (simp_all add: in_range_untied_def s_def t_def js_add_def)
  have small: "\<bar>s\<bar> < 256"
    using range by simp
  have k_lo: "of_int k \<le> s + 1 / 2" and k_hi: "s + 1 / 2 < of_int k + 1"
    unfolding k_def by linarith+
  have k0: "0 \<le> k"
    unfolding k_def using range(1) by simp
  have "s + 1 / 2 < 256"
    using range(2) by simp
  then have "k < 256"
    unfolding k_def by (simp add: floor_less_iff)
  then have k255: "k \<le> 255"
    by simp
  have "s \<le> of_int (2 * k + 1) / 2"
    using k_hi by simp
  with small have "t \<le> of_int (2 * k + 1) / 2"
    unfolding t_def by (rule binary64_le_half_integer)
  then have t_le: "t \<le> of_int k + 1 / 2"
    by simp
  have "of_int (2 * k - 1) / 2 \<le> s"
    using k_lo by simp
  with small have "of_int (2 * k - 1) / 2 \<le> t"
    unfolding t_def by (rule binary64_ge_half_integer)
  then have t_ge: "of_int k - 1 / 2 \<le> t"
    by simp
  have "t \<noteq> of_int k + 1 / 2"
  proof
    assume "t = of_int k + 1 / 2"
    then have "frac t = 1 / 2"
      by (simp only: frac_half)
    with untied show False
      by simp
  qed
  with t_le have hi: "t < of_int k + 1 / 2"
    by simp
  have "t \<noteq> of_int k - 1 / 2"
  proof
    assume "t = of_int k - 1 / 2"
    then have "t = of_int (k - 1) + 1 / 2"
      by simp
    then have "frac t = 1 / 2"
      by (simp only: frac_half)
    with untied show False
      by simp
  qed
  with t_ge have lo: "of_int k - 1 / 2 < t"
    by simp
  have "ToUint8Clamp t = word_of_int k"
    using lo hi k0 k255 by (rule ToUint8Clamp_nearest)
  moreover have "uint (word_of_int k :: byte) = k"
  proof -
    have "uint (word_of_int k :: byte) = take_bit 8 k"
      by (simp add: uint_word_of_int take_bit_eq_mod)
    also have "\<dots> = k"
      using k0 k255 by (intro take_bit_int_eq_self) simp_all
    finally show ?thesis .
  qed
  moreover have "k = uint v + \<lfloor>d + 1 / 2\<rfloor>"
  proof -
    have "s + 1 / 2 = of_int (uint v) + (d + 1 / 2)"
      by (simp add: s_def)
    then have "k = \<lfloor>of_int (uint v) + (d + 1 / 2)\<rfloor>"
      by (simp only: k_def)
    also have "\<dots> = uint v + \<lfloor>d + 1 / 2\<rfloor>"
      by linarith
    finally show ?thesis .
  qed
  ultimately show ?thesis
    by (simp add: t_def s_def js_add_def)
qed

subsection \<open>Draws\<close>

lemma advance_add:
  "advance rrange lo hi n (advance rrange lo hi k g) = advance rrange lo hi (k + n) g"
  by (induction k arbitrary: g) simp_all

lemma draw_advance:
  "draw rrange lo hi n (advance rrange lo hi k g) = draw rrange lo hi (k + n) g"
  by (simp add: draw_def advance_add)

lemma advance_1: "advance rrange lo hi 1 g = snd (rrange lo hi g)"
  by simp

lemma advance_2: "advance rrange lo hi 2 g = snd (rrange lo hi (snd (rrange lo hi g)))"
  by (simp add: numeral_2_eq_2)

lemma advance_3:
  "advance rrange lo hi 3 g = snd (rrange lo hi (snd (rrange lo hi (snd (rrange lo hi g)))))"
  by (simp add: numeral_3_eq_3)

lemma advance_numeral:
  "advance rrange lo hi (numeral n) g = advance rrange lo hi (pred_numeral n) (snd (rrange lo hi g))"
  by (simp add: numeral_eq_Suc)

lemma funpow_advance:
  "(advance rrange lo hi k ^^ m) g = advance rrange lo hi (k * m) g"
proof (induction m)
  case 0
  show ?case by simp
next
  case (Suc m)
  have "(advance rrange lo hi k ^^ Suc m) g = advance rrange lo hi k (advance rrange lo hi (k * m) g)"
    using Suc by simp
  also have "\<dots> = advance rrange lo hi (k * m + k) g"
    by (rule advance_add)
  finally show ?case
    by (simp add: add.commute)
qed

subsection \<open>invert\<close>

lemma invert_body_nth:
  "j < length px \<Longrightarrow>
     invert_body i px ! j = (if i \<le> j \<and> j < i + 3 then 255 - px ! j else px ! j)"
  by (auto simp add: invert_body_def Let_def assign_op_nth length_assign_op ToUint8Clamp_complement)

lemma length_invert_loop: "length (invert_loop i px) = length px"
proof (induction i px rule: invert_loop.induct)
  case (1 i px)
  then show ?case
    by (subst invert_loop.simps) (simp add: length_invert_body)
qed

lemma invert_loop_below: "j < i \<Longrightarrow> invert_loop i px ! j = px ! j"
proof (induction i px rule: invert_loop.induct)
  case (1 i px)
  show ?case
  proof (cases "i < length px")
    case True
    then have "invert_loop i px ! j = invert_loop (i + 4) (invert_body i px) ! j"
      by (subst invert_loop.simps) simp
    also have "\<dots> = invert_body i px ! j"
      using "1.IH" [OF True] "1.prems" by simp
    also have "\<dots> = px ! j"
      using True "1.prems" by (simp add: invert_body_nth)
    finally show ?thesis .
  next
    case False
    then show ?thesis
      by (subst invert_loop.simps) simp
  qed
qed

lemma invert_loop_pixel:
  "i + 4 * m + c < length px \<Longrightarrow> c < 4 \<Longrightarrow>
     invert_loop i px ! (i + 4 * m + c) =
       (if c = 3 then px ! (i + 4 * m + c) else 255 - px ! (i + 4 * m + c))"
proof (induction i px arbitrary: m rule: invert_loop.induct)
  case (1 i px)
  from "1.prems" have run: "i < length px"
    by simp
  then have step: "invert_loop i px = invert_loop (i + 4) (invert_body i px)"
    by (subst invert_loop.simps) simp
  show ?case
  proof (cases m)
    case 0
    have "invert_loop (i + 4) (invert_body i px) ! (i + c) = invert_body i px ! (i + c)"
      using "1.prems" by (simp add: invert_loop_below)
    also have "\<dots> = (if c = 3 then px ! (i + c) else 255 - px ! (i + c))"
      using "1.prems" 0 by (auto simp add: invert_body_nth)
    finally have "invert_loop (i + 4) (invert_body i px) ! (i + c) =
                    (if c = 3 then px ! (i + c) else 255 - px ! (i + c))" .
    moreover have "i + 4 * m + c = i + c"
      using 0 by simp
    ultimately show ?thesis
      by (simp only: step)
  next
    case (Suc n)
    have idx: "i + 4 * m + c = i + 4 + 4 * n + c"
      using Suc by simp
    have inner: "invert_loop (i + 4) (invert_body i px) ! (i + 4 + 4 * n + c) =
            (if c = 3 then invert_body i px ! (i + 4 + 4 * n + c)
             else 255 - invert_body i px ! (i + 4 + 4 * n + c))"
      using "1.IH" [OF run, of n] "1.prems" idx by (simp add: length_invert_body)
    have kept: "invert_body i px ! (i + 4 + 4 * n + c) = px ! (i + 4 + 4 * n + c)"
      using "1.prems" idx by (simp add: invert_body_nth)
    show ?thesis
      unfolding step idx by (rule inner [unfolded kept])
  qed
qed

lemma pixel_index: "0 + 4 * (j div 4) + j mod 4 = (j :: nat)"
  by simp

lemma invert_nth:
  assumes "j < length px"
  shows "invert px ! j = (if j mod 4 = 3 then px ! j else 255 - px ! j)"
proof -
  have "invert_loop 0 px ! (0 + 4 * (j div 4) + j mod 4) =
          (if j mod 4 = 3 then px ! (0 + 4 * (j div 4) + j mod 4)
           else 255 - px ! (0 + 4 * (j div 4) + j mod 4))"
    by (rule invert_loop_pixel) (use assms in simp_all)
  then show ?thesis
    unfolding invert_def pixel_index .
qed

lemma length_invert: "length (invert px) = length px"
  by (simp add: invert_def length_invert_loop)

lemma invert_invert: "invert (invert px) = px"
  by (rule nth_equalityI) (simp_all add: length_invert invert_nth)

lemma invert_mode: "addGrain rrange px (Some ''invert'') g = (invert px, g)"
  by (simp add: addGrain_def)

section \<open>A loop over the pixels, in general\<close>

text \<open>
  The three loops that draw random numbers have one shape: while \<open>i\<close> is inside the array, run
  the body at \<open>i\<close> and go on at \<open>i + 4\<close>. For a body that keeps the length, writes only
  the indices \<open>i, \<dots>, i + 3\<close> and advances the generator in one fixed way, the result of the
  loop is known index by index.
\<close>

lemma iterations_step:
  "i < n \<Longrightarrow> (n + 3 - i) div 4 = Suc ((n + 3 - (i + 4)) div (4 :: nat))"
proof -
  assume "i < n"
  then have "n + 3 - i = (n + 3 - (i + 4)) + 4"
    by simp
  then have "(n + 3 - i) div 4 = ((n + 3 - (i + 4)) + 4) div 4"
    by (rule arg_cong)
  also have "\<dots> = Suc ((n + 3 - (i + 4)) div 4)"
    by simp
  finally show ?thesis .
qed

lemma iterations_done: "\<not> i < n \<Longrightarrow> (n + 3 - i) div 4 = (0 :: nat)"
  by simp

lemma grain_loop_generic:
  fixes loop body :: "nat \<Rightarrow> pixels \<Rightarrow> 'g \<Rightarrow> pixels \<times> 'g"
  assumes eq: "\<And>i px g. loop i px g =
      (if i < length px then (case body i px g of (px', g') \<Rightarrow> loop (i + 4) px' g') else (px, g))"
    and len: "\<And>i px g. length (fst (body i px g)) = length px"
    and gen: "\<And>i px g. snd (body i px g) = adv g"
    and frame: "\<And>i px g j. j < length px \<Longrightarrow> j < i \<or> i + 4 \<le> j \<Longrightarrow>
      fst (body i px g) ! j = px ! j"
    and val: "\<And>i px g c. c < 4 \<Longrightarrow> i + c < length px \<Longrightarrow>
      fst (body i px g) ! (i + c) = F c (px ! (i + c)) g"
  shows grain_loop_length: "length (fst (loop i px g)) = length px"
    and grain_loop_state: "snd (loop i px g) = (adv ^^ ((length px + 3 - i) div 4)) g"
    and grain_loop_below: "j < i \<Longrightarrow> j < length px \<Longrightarrow> fst (loop i px g) ! j = px ! j"
    and grain_loop_pixel: "i + 4 * m + c < length px \<Longrightarrow> c < 4 \<Longrightarrow>
      fst (loop i px g) ! (i + 4 * m + c) = F c (px ! (i + 4 * m + c)) ((adv ^^ m) g)"
proof -
  have step: "loop i px g = loop (i + 4) (fst (body i px g)) (adv g)" if "i < length px" for i px g
    using that by (subst eq) (simp add: split_def gen)
  have stop: "loop i px g = (px, g)" if "\<not> i < length px" for i px g
    using that by (subst eq) simp
  show L: "length (fst (loop i px g)) = length px" for i px g
  proof (induction "length px - i" arbitrary: i px g rule: less_induct)
    case less
    show ?case
    proof (cases "i < length px")
      case True
      then have "length (fst (body i px g)) - (i + 4) < length px - i"
        by (simp add: len)
      then have "length (fst (loop (i + 4) (fst (body i px g)) (adv g))) = length (fst (body i px g))"
        by (rule less.hyps)
      then show ?thesis
        by (simp add: step [OF True] len)
    next
      case False
      then show ?thesis
        by (simp add: stop)
    qed
  qed
  show "snd (loop i px g) = (adv ^^ ((length px + 3 - i) div 4)) g"
  proof (induction "length px - i" arbitrary: i px g rule: less_induct)
    case less
    show ?case
    proof (cases "i < length px")
      case True
      then have "length (fst (body i px g)) - (i + 4) < length px - i"
        by (simp add: len)
      then have "snd (loop (i + 4) (fst (body i px g)) (adv g)) =
          (adv ^^ ((length (fst (body i px g)) + 3 - (i + 4)) div 4)) (adv g)"
        by (rule less.hyps)
      then show ?thesis
        by (simp only: step [OF True] len iterations_step [OF True] funpow_Suc_right o_apply)
    next
      case False
      then show ?thesis
        by (simp add: stop)
    qed
  qed
  show B: "fst (loop i px g) ! j = px ! j" if "j < i" and "j < length px" for i px g j
    using that
  proof (induction "length px - i" arbitrary: i px g rule: less_induct)
    case less
    show ?case
    proof (cases "i < length px")
      case True
      then have "length (fst (body i px g)) - (i + 4) < length px - i"
        by (simp add: len)
      moreover have "j < i + 4" and "j < length (fst (body i px g))"
        using less.prems by (simp_all add: len)
      ultimately have "fst (loop (i + 4) (fst (body i px g)) (adv g)) ! j = fst (body i px g) ! j"
        by (rule less.hyps)
      also have "\<dots> = px ! j"
        using less.prems by (simp add: frame)
      finally show ?thesis
        by (simp only: step [OF True])
    next
      case False
      then show ?thesis
        by (simp add: stop)
    qed
  qed
  show "fst (loop i px g) ! (i + 4 * m + c) = F c (px ! (i + 4 * m + c)) ((adv ^^ m) g)"
    if "i + 4 * m + c < length px" and "c < 4"
    using that
  proof (induction m arbitrary: i px g)
    case 0
    then have run: "i < length px" and inside: "i + c < length px"
      by simp_all
    have "fst (loop (i + 4) (fst (body i px g)) (adv g)) ! (i + c) = fst (body i px g) ! (i + c)"
      using 0 by (intro B) (simp_all add: len)
    also have "\<dots> = F c (px ! (i + c)) g"
      using \<open>c < 4\<close> inside by (rule val)
    finally show ?case
      by (simp add: step [OF run])
  next
    case (Suc m)
    then have run: "i < length px"
      by simp
    have idx: "i + 4 * Suc m + c = i + 4 + 4 * m + c"
      by simp
    have inside: "i + 4 + 4 * m + c < length (fst (body i px g))"
      using Suc.prems by (simp add: len)
    have "fst (loop (i + 4) (fst (body i px g)) (adv g)) ! (i + 4 + 4 * m + c) =
        F c (fst (body i px g) ! (i + 4 + 4 * m + c)) ((adv ^^ m) (adv g))"
      using inside \<open>c < 4\<close> by (rule Suc.IH)
    moreover have "fst (body i px g) ! (i + 4 + 4 * m + c) = px ! (i + 4 + 4 * m + c)"
      using Suc.prems by (intro frame) simp_all
    ultimately show ?case
      by (simp only: step [OF run] idx funpow_Suc_right o_apply)
  qed
qed


section \<open>The loops of the random modes\<close>

subsection \<open>colorGrain\<close>

lemma snd_colorGrain_body: "snd (colorGrain_body rrange i px g) = advance rrange (- 25) 25 3 g"
  by (simp add: colorGrain_body_def Let_def split_def advance_3)

lemma colorGrain_body_nth:
  "j < length px \<Longrightarrow>
     fst (colorGrain_body rrange i px g) ! j =
       (if j = i then ToUint8Clamp (js_add (real (unat (px ! j))) (draw rrange (- 25) 25 0 g))
        else if j = i + 1 then ToUint8Clamp (js_add (real (unat (px ! j)))
            (draw rrange (- 25) 25 1 g))
        else if j = i + 2 then ToUint8Clamp (js_add (real (unat (px ! j)))
            (draw rrange (- 25) 25 2 g))
        else if j = i + 3 then 255
        else px ! j)"
  by (simp add: colorGrain_body_def Let_def split_def assign_op_nth store_nth length_assign_op
      draw_def advance_1 advance_2 ToUint8Clamp_255)

lemma length_colorGrain_loop: "length (fst (colorGrain_loop rrange i px g)) = length px"
proof (induction rrange i px g rule: colorGrain_loop.induct)
  case (1 rrange i px g)
  show ?case
  proof (cases "i < length px")
    case True
    obtain px' g' where body: "colorGrain_body rrange i px g = (px', g')"
      by (cases "colorGrain_body rrange i px g")
    then have "length px' = length px"
      using length_colorGrain_body [of rrange i px g] by simp
    moreover have "length (fst (colorGrain_loop rrange (i + 4) px' g')) = length px'"
      using "1.IH" [OF True body [symmetric]] .
    moreover have "colorGrain_loop rrange i px g = colorGrain_loop rrange (i + 4) px' g'"
      using True body by (subst colorGrain_loop.simps) simp
    ultimately show ?thesis
      by simp
  next
    case False
    then show ?thesis
      by (subst colorGrain_loop.simps) simp
  qed
qed


lemma colorGrain_body_frame:
  "j < length px \<Longrightarrow> j < i \<or> i + 4 \<le> j \<Longrightarrow> fst (colorGrain_body rrange i px g) ! j = px ! j"
  by (auto simp add: colorGrain_body_nth)

lemma colorGrain_body_val:
  assumes "c < 4" and "i + c < length px"
  shows "fst (colorGrain_body rrange i px g) ! (i + c) =
    (if c < 3 then ToUint8Clamp (js_add (real (unat (px ! (i + c))))
        (draw rrange (- 25) 25 c g)) else 255)"
proof -
  from \<open>c < 4\<close> consider "c = 0" | "c = 1" | "c = 2" | "c = 3"
    by linarith
  then show ?thesis
    using assms(2) by cases (simp_all add: colorGrain_body_nth)
qed

lemmas colorGrain_loop_facts =
  grain_loop_generic [where loop = "colorGrain_loop rrange" and body = "colorGrain_body rrange"
    and adv = "advance rrange (- 25) 25 3"
    and F = "\<lambda>c v g. if c < 3 then ToUint8Clamp (js_add (real (unat v))
        (draw rrange (- 25) 25 c g)) else 255",
    OF colorGrain_loop.simps length_colorGrain_body snd_colorGrain_body
       colorGrain_body_frame colorGrain_body_val] for rrange

lemma length_colorGrain: "length (fst (colorGrain rrange px g)) = length px"
  unfolding colorGrain_def by (rule colorGrain_loop_facts(1))

lemma snd_colorGrain:
  "snd (colorGrain rrange px g) = advance rrange (- 25) 25 (3 * ((length px + 3) div 4)) g"
  unfolding colorGrain_def by (simp add: colorGrain_loop_facts(2) funpow_advance)

lemma colorGrain_pixel:
  assumes "4 * p + c < length px" and "c < 4"
  shows "fst (colorGrain rrange px g) ! (4 * p + c) =
    (if c < 3 then ToUint8Clamp (js_add (real (unat (px ! (4 * p + c))))
        (draw rrange (- 25) 25 (3 * p + c) g))
     else 255)"
proof -
  have "fst (colorGrain_loop rrange 0 px g) ! (0 + 4 * p + c) =
      (if c < 3
       then ToUint8Clamp (js_add (real (unat (px ! (0 + 4 * p + c))))
           (draw rrange (- 25) 25 c ((advance rrange (- 25) 25 3 ^^ p) g)))
       else 255)"
    using assms by (intro colorGrain_loop_facts(4)) simp_all
  then show ?thesis
    by (simp add: colorGrain_def funpow_advance draw_advance)
qed

subsection \<open>parallelGrain\<close>

lemma snd_parallelGrain_body:
  "snd (parallelGrain_body rrange i px g) = advance rrange (- 15) 15 1 g"
  by (simp add: parallelGrain_body_def Let_def split_def)

lemma parallelGrain_body_nth:
  "j < length px \<Longrightarrow>
     fst (parallelGrain_body rrange i px g) ! j =
       (if j = i \<or> j = i + 1 \<or> j = i + 2
        then ToUint8Clamp (js_add (real (unat (px ! j))) (draw rrange (- 15) 15 0 g))
        else if j = i + 3 then 255
        else px ! j)"
  by (simp add: parallelGrain_body_def Let_def split_def assign_op_nth store_nth length_assign_op
      draw_def ToUint8Clamp_255)

lemma parallelGrain_body_frame:
  "j < length px \<Longrightarrow> j < i \<or> i + 4 \<le> j \<Longrightarrow> fst (parallelGrain_body rrange i px g) ! j = px ! j"
  by (auto simp add: parallelGrain_body_nth)

lemma parallelGrain_body_val:
  assumes "c < 4" and "i + c < length px"
  shows "fst (parallelGrain_body rrange i px g) ! (i + c) =
    (if c < 3 then ToUint8Clamp (js_add (real (unat (px ! (i + c))))
        (draw rrange (- 15) 15 0 g)) else 255)"
proof -
  from \<open>c < 4\<close> consider "c = 0" | "c = 1" | "c = 2" | "c = 3"
    by linarith
  then show ?thesis
    using assms(2) by cases (simp_all add: parallelGrain_body_nth)
qed

lemmas parallelGrain_loop_facts =
  grain_loop_generic [where loop = "parallelGrain_loop rrange" and body = "parallelGrain_body rrange"
    and adv = "advance rrange (- 15) 15 1"
    and F = "\<lambda>c v g. if c < 3 then ToUint8Clamp (js_add (real (unat v))
        (draw rrange (- 15) 15 0 g)) else 255",
    OF parallelGrain_loop.simps length_parallelGrain_body snd_parallelGrain_body
       parallelGrain_body_frame parallelGrain_body_val] for rrange

lemma length_parallelGrain: "length (fst (parallelGrain rrange px g)) = length px"
  unfolding parallelGrain_def by (rule parallelGrain_loop_facts(1))

lemma snd_parallelGrain:
  "snd (parallelGrain rrange px g) = advance rrange (- 15) 15 ((length px + 3) div 4) g"
  unfolding parallelGrain_def by (simp add: parallelGrain_loop_facts(2) funpow_advance)

lemma parallelGrain_pixel:
  assumes "4 * p + c < length px" and "c < 4"
  shows "fst (parallelGrain rrange px g) ! (4 * p + c) =
    (if c < 3 then ToUint8Clamp (js_add (real (unat (px ! (4 * p + c))))
        (draw rrange (- 15) 15 p g))
     else 255)"
proof -
  have "fst (parallelGrain_loop rrange 0 px g) ! (0 + 4 * p + c) =
      (if c < 3
       then ToUint8Clamp (js_add (real (unat (px ! (0 + 4 * p + c))))
           (draw rrange (- 15) 15 0 ((advance rrange (- 15) 15 1 ^^ p) g)))
       else 255)"
    using assms by (intro parallelGrain_loop_facts(4)) simp_all
  then show ?thesis
    by (simp add: parallelGrain_def funpow_advance draw_advance)
qed

subsection \<open>redGrain\<close>

lemma snd_redGrain_body: "snd (redGrain_body rrange i px g) = advance rrange 50 100 1 g"
  by (simp add: redGrain_body_def Let_def split_def)

lemma redGrain_body_nth:
  "j < length px \<Longrightarrow>
     fst (redGrain_body rrange i px g) ! j =
       (if j = i then ToUint8Clamp (js_add (real (unat (px ! j))) (draw rrange 50 100 0 g))
        else if j = i + 1 \<or> j = i + 2
        then ToUint8Clamp (js_sub (real (unat (px ! j))) (js_mul (draw rrange 50 100 0 g) 0.5))
        else px ! j)"
  by (simp add: redGrain_body_def Let_def split_def assign_op_nth length_assign_op draw_def)

lemma redGrain_body_frame:
  "j < length px \<Longrightarrow> j < i \<or> i + 4 \<le> j \<Longrightarrow> fst (redGrain_body rrange i px g) ! j = px ! j"
  by (auto simp add: redGrain_body_nth)

lemma redGrain_body_val:
  assumes "c < 4" and "i + c < length px"
  shows "fst (redGrain_body rrange i px g) ! (i + c) =
    (if c = 0 then ToUint8Clamp (js_add (real (unat (px ! (i + c)))) (draw rrange 50 100 0 g))
     else if c < 3 then ToUint8Clamp (js_sub (real (unat (px ! (i + c)))) (js_mul
         (draw rrange 50 100 0 g) 0.5))
     else px ! (i + c))"
proof -
  from \<open>c < 4\<close> consider "c = 0" | "c = 1" | "c = 2" | "c = 3"
    by linarith
  then show ?thesis
    using assms(2) by cases (simp_all add: redGrain_body_nth)
qed

lemmas redGrain_loop_facts =
  grain_loop_generic [where loop = "redGrain_loop rrange" and body = "redGrain_body rrange"
    and adv = "advance rrange 50 100 1"
    and F = "\<lambda>c v g. if c = 0 then ToUint8Clamp (js_add (real (unat v))
        (draw rrange 50 100 0 g))
       else if c < 3 then ToUint8Clamp (js_sub (real (unat v)) (js_mul
           (draw rrange 50 100 0 g) 0.5))
       else v",
    OF redGrain_loop.simps length_redGrain_body snd_redGrain_body
       redGrain_body_frame redGrain_body_val] for rrange

lemma length_redGrain: "length (fst (redGrain rrange px g)) = length px"
  unfolding redGrain_def by (rule redGrain_loop_facts(1))

lemma snd_redGrain:
  "snd (redGrain rrange px g) = advance rrange 50 100 ((length px + 3) div 4) g"
  unfolding redGrain_def by (simp add: redGrain_loop_facts(2) funpow_advance)

lemma redGrain_pixel:
  assumes "4 * p + c < length px" and "c < 4"
  shows "fst (redGrain rrange px g) ! (4 * p + c) =
    (if c = 0 then ToUint8Clamp (js_add (real (unat (px ! (4 * p + c)))) (draw rrange 50 100 p g))
     else if c < 3 then ToUint8Clamp (js_sub (real (unat (px ! (4 * p + c)))) (js_mul
         (draw rrange 50 100 p g) 0.5))
     else px ! (4 * p + c))"
proof -
  have "fst (redGrain_loop rrange 0 px g) ! (0 + 4 * p + c) =
      (if c = 0
       then ToUint8Clamp (js_add (real (unat (px ! (0 + 4 * p + c))))
           (draw rrange 50 100 0 ((advance rrange 50 100 1 ^^ p) g)))
       else if c < 3
       then ToUint8Clamp (js_sub (real (unat (px ! (0 + 4 * p + c)))) (js_mul
           (draw rrange 50 100 0 ((advance rrange 50 100 1 ^^ p) g)) 0.5))
       else px ! (0 + 4 * p + c))"
    using assms by (intro redGrain_loop_facts(4)) simp_all
  then show ?thesis
    by (simp add: redGrain_def funpow_advance draw_advance)
qed

section \<open>The rounding of the sums, on examples\<close>

text \<open>
  Three runs whose draw brings a sum just above a tie. The exact sum \<open>100.5 + 3/2\<^sup>4\<^sup>9\<close> is
  no double; the double nearest to it is \<open>100.5\<close>, and the store of \<open>100.5\<close> keeps the even
  100, where the exact sum would have given 101. The same happens at \<open>74.5\<close> and \<open>64.5\<close> in
  mode \<^verbatim>\<open>"red"\<close> and at \<open>200.5\<close> in mode \<^verbatim>\<open>"colorful"\<close>. In the first run no channel saturates,
  and red moves by 0 while green and blue move by 1.
\<close>

lemma pow2_46: "(2 :: real) powr of_int (6 - 52) = 1 / 2 ^ 46"
  by (simp add: powr_minus_divide powr_realpow [symmetric])

lemma pow2_45: "(2 :: real) powr of_int (7 - 52) = 1 / 2 ^ 45"
  by (simp add: powr_minus_divide powr_realpow [symmetric])

lemma pow2_34: "(2 :: real) powr of_int (18 - 52) = 1 / 2 ^ 34"
  by (simp add: powr_minus_divide powr_realpow [symmetric])

lemma parallel_tie_example:
  "addGrain fixed_range [100, 101, 0, 0] (Some ''parallel'') [1 / 2 + 3 / 2 ^ 49]
     = ([100, 102, 1, 255], [])"
proof -
  define d :: real where "d = 1 / 2 + 3 / 2 ^ 49"
  have "binary64 (100 + d)
      = of_int (nearest_even ((100 + d) / 2 powr of_int (6 - 52))) * 2 powr of_int (6 - 52)"
    unfolding d_def by (rule binary64_in_binade) (simp_all add: powr_realpow [symmetric])
  also have "nearest_even ((100 + d) / 2 powr of_int (6 - 52)) = 201 * 2 ^ 45"
    unfolding pow2_46 d_def by (simp add: nearest_even_def Let_def)
  finally have r0: "js_add 100 d = 201 / 2"
    unfolding pow2_46 js_add_def by simp
  have "binary64 (101 + d)
      = of_int (nearest_even ((101 + d) / 2 powr of_int (6 - 52))) * 2 powr of_int (6 - 52)"
    unfolding d_def by (rule binary64_in_binade) (simp_all add: powr_realpow [symmetric])
  also have "nearest_even ((101 + d) / 2 powr of_int (6 - 52)) = 203 * 2 ^ 45"
    unfolding pow2_46 d_def by (simp add: nearest_even_def Let_def)
  finally have r1: "js_add 101 d = 203 / 2"
    unfolding pow2_46 js_add_def by simp
  have "d = of_int (2 ^ 48 + 3) * 2 powr of_int (- 49)"
    unfolding d_def by (simp add: powr_minus_divide powr_realpow [symmetric])
  moreover have "binary64 (of_int (2 ^ 48 + 3) * 2 powr of_int (- 49))
      = of_int (2 ^ 48 + 3) * 2 powr of_int (- 49)"
    by (rule binary64_dyadic) simp_all
  ultimately have r2: "js_add 0 d = d"
    unfolding js_add_def by simp
  have c: "ToUint8Clamp (201 / 2) = 100" "ToUint8Clamp (203 / 2) = 102" "ToUint8Clamp d = 1"
    unfolding d_def by (simp_all add: ToUint8Clamp_def)
  have "addGrain fixed_range [100, 101, 0, 0] (Some ''parallel'') [d] = ([100, 102, 1, 255], [])"
    by (simp add: addGrain_def parallelGrain_def parallelGrain_loop.simps parallelGrain_body_def
        fixed_range_def assign_op_def store_def r0 r1 r2 c ToUint8Clamp_255)
  then show ?thesis
    unfolding d_def .
qed

lemma red_tie_example:
  "addGrain fixed_range [0, 100, 90, 3] (Some ''red'') [51 - 1 / 2 ^ 47] = ([51, 74, 64, 3], [])"
proof -
  define d :: real where "d = 51 - 1 / 2 ^ 47"
  define h :: real where "h = 51 / 2 - 1 / 2 ^ 48"
  have "d = of_int (51 * 2 ^ 47 - 1) * 2 powr of_int (- 47)"
    unfolding d_def by (simp add: powr_minus_divide powr_realpow [symmetric] field_simps)
  moreover have "binary64 (of_int (51 * 2 ^ 47 - 1) * 2 powr of_int (- 47))
      = of_int (51 * 2 ^ 47 - 1) * 2 powr of_int (- 47)"
    by (rule binary64_dyadic) simp_all
  ultimately have r0: "js_add 0 d = d"
    unfolding js_add_def by simp
  have "d * 0.5 = of_int (51 * 2 ^ 47 - 1) * 2 powr of_int (- 48)"
    unfolding d_def by (simp add: powr_minus_divide powr_realpow [symmetric] field_simps)
  moreover have "binary64 (of_int (51 * 2 ^ 47 - 1) * 2 powr of_int (- 48))
      = of_int (51 * 2 ^ 47 - 1) * 2 powr of_int (- 48)"
    by (rule binary64_dyadic) simp_all
  moreover have "d * 0.5 = h"
    unfolding d_def h_def by simp
  ultimately have m: "js_mul d (1 / 2) = h"
    unfolding js_mul_def by simp
  have "binary64 (100 - h)
      = of_int (nearest_even ((100 - h) / 2 powr of_int (6 - 52))) * 2 powr of_int (6 - 52)"
    unfolding h_def by (rule binary64_in_binade) (simp_all add: powr_realpow [symmetric])
  also have "nearest_even ((100 - h) / 2 powr of_int (6 - 52)) = 149 * 2 ^ 45"
    unfolding pow2_46 h_def by (simp add: nearest_even_def Let_def)
  finally have r1: "js_sub 100 h = 149 / 2"
    unfolding pow2_46 js_sub_def by simp
  have "binary64 (90 - h)
      = of_int (nearest_even ((90 - h) / 2 powr of_int (6 - 52))) * 2 powr of_int (6 - 52)"
    unfolding h_def by (rule binary64_in_binade) (simp_all add: powr_realpow [symmetric])
  also have "nearest_even ((90 - h) / 2 powr of_int (6 - 52)) = 129 * 2 ^ 45"
    unfolding pow2_46 h_def by (simp add: nearest_even_def Let_def)
  finally have r2: "js_sub 90 h = 129 / 2"
    unfolding pow2_46 js_sub_def by simp
  have c: "ToUint8Clamp d = 51" "ToUint8Clamp (149 / 2) = 74" "ToUint8Clamp (129 / 2) = 64"
    unfolding d_def by (simp_all add: ToUint8Clamp_def)
  have "addGrain fixed_range [0, 100, 90, 3] (Some ''red'') [d] = ([51, 74, 64, 3], [])"
    by (simp add: addGrain_def redGrain_def redGrain_loop.simps redGrain_body_def
        fixed_range_def assign_op_def store_def r0 m r1 r2 c)
  then show ?thesis
    unfolding d_def .
qed

lemma colorful_tie_example:
  "addGrain fixed_range [200, 0, 0, 0] (Some ''colorful'') [1 / 2 + 3 / 2 ^ 48, 0, 0]
     = ([200, 0, 0, 255], [])"
proof -
  define d :: real where "d = 1 / 2 + 3 / 2 ^ 48"
  have "binary64 (200 + d)
      = of_int (nearest_even ((200 + d) / 2 powr of_int (7 - 52))) * 2 powr of_int (7 - 52)"
    unfolding d_def by (rule binary64_in_binade) (simp_all add: powr_realpow [symmetric])
  also have "nearest_even ((200 + d) / 2 powr of_int (7 - 52)) = 401 * 2 ^ 44"
    unfolding pow2_45 d_def by (simp add: nearest_even_def Let_def)
  finally have r0: "js_add 200 d = 401 / 2"
    unfolding pow2_45 js_add_def by simp
  have z: "js_add 0 0 = 0"
    by (simp add: js_add_def)
  have c: "ToUint8Clamp (401 / 2) = 200" "ToUint8Clamp 0 = 0"
    by (simp_all add: ToUint8Clamp_def)
  have "addGrain fixed_range [200, 0, 0, 0] (Some ''colorful'') [d, 0, 0] = ([200, 0, 0, 255], [])"
    by (simp add: addGrain_def colorGrain_def colorGrain_loop.simps colorGrain_body_def
        fixed_range_def assign_op_def store_def r0 z c ToUint8Clamp_255)
  then show ?thesis
    unfolding d_def .
qed

text \<open>
  The double nearest to \<open>0.500003\<close> is \<open>1125906662242065 / 2\<^sup>5\<^sup>1\<close>, a little below it. Times
  \<open>1000000\<close> it is \<open>500002.99999999997\<close> exactly, and \<open>500003\<close> as the double the program
  computes.
\<close>

lemma double_500003:
  "binary64 (1125906662242065 / 2251799813685248) = 1125906662242065 / 2251799813685248"
proof -
  have e: "(1125906662242065 / 2251799813685248 :: real)
      = of_int 1125906662242065 * 2 powr of_int (- 51)"
    by (simp add: powr_minus_divide powr_realpow [symmetric])
  show ?thesis
    unfolding e by (rule binary64_dyadic) simp_all
qed

lemma seed_500003:
  "js_mul (1125906662242065 / 2251799813685248) 1000000 = 500003"
  "\<lfloor>1125906662242065 / 2251799813685248 * 1000000 :: real\<rfloor> = 500002"
proof -
  define x :: real where "x = 1125906662242065 / 2251799813685248 * 1000000"
  have "binary64 x
      = of_int (nearest_even (x / 2 powr of_int (18 - 52))) * 2 powr of_int (18 - 52)"
    unfolding x_def by (rule binary64_in_binade) (simp_all add: powr_realpow [symmetric])
  also have "nearest_even (x / 2 powr of_int (18 - 52)) = 500003 * 2 ^ 34"
    unfolding pow2_34 x_def by (simp add: nearest_even_def Let_def)
  finally show "js_mul (1125906662242065 / 2251799813685248) 1000000 = 500003"
    unfolding pow2_34 js_mul_def x_def by simp
  show "\<lfloor>1125906662242065 / 2251799813685248 * 1000000 :: real\<rfloor> = 500002"
    by simp
qed

section \<open>The claims\<close>

text \<open>
  Claim C1. For every pixel buffer, \<^verbatim>\<open>addGrain\<close> with mode \<^verbatim>\<open>"invert"\<close> replaces the red,
  green and blue value of every pixel (the indices \<open>j\<close> with \<open>j mod 4 \<noteq> 3\<close>) by 255 minus
  that value and leaves every alpha value (\<open>j mod 4 = 3\<close>) as it is, drawing no random
  number; inverting twice gives the original buffer back; and the buffer
  \<open>[10,20,30,255, 200,200,200,0]\<close> becomes \<open>[245,235,225,255, 55,55,55,0]\<close>.
\<close>

theorem addGrain_invert:
  "map unat (fst (addGrain rrange px (Some ''invert'') g)) =
     map (\<lambda>j. if j mod 4 = 3 then unat (px ! j) else 255 - unat (px ! j)) [0..<length px]
   \<and> snd (addGrain rrange px (Some ''invert'') g) = g
   \<and> fst (addGrain rrange (fst (addGrain rrange px (Some ''invert'') g)) (Some ''invert'') g') = px
   \<and> fst (addGrain rrange [10, 20, 30, 255, 200, 200, 200, 0] (Some ''invert'') g)
       = [245, 235, 225, 255, 55, 55, 55, 0]"
proof -
  have "map unat (invert px) =
          map (\<lambda>j. if j mod 4 = 3 then unat (px ! j) else 255 - unat (px ! j)) [0..<length px]"
    by (rule nth_equalityI) (simp_all add: length_invert invert_nth unat_complement)
  moreover have "invert [10, 20, 30, 255, 200, 200, 200, 0] = [245, 235, 225, 255, 55, 55, 55, 0 :: byte]"
    by (simp add: invert_def invert_loop.simps invert_body_def assign_op_def store_def
        ToUint8Clamp_def)
  ultimately show ?thesis
    by (simp add: invert_mode invert_invert)
qed

lemma channel_index: "j mod 4 = c \<Longrightarrow> 4 * (j div 4) + c = (j :: nat)"
  by auto

text \<open>
  Claim C3. For every pixel buffer and every mode string other than \<^verbatim>\<open>"colorful"\<close>,
  \<^verbatim>\<open>"parallel"\<close>, \<^verbatim>\<open>"red"\<close> and \<^verbatim>\<open>"invert"\<close> (such as \<^verbatim>\<open>"nonsense"\<close>), \<^verbatim>\<open>addGrain\<close> returns
  normally (the \<^verbatim>\<open>switch\<close> matches no case and the function has no \<^verbatim>\<open>throw\<close>), the buffer
  is the input buffer, byte for byte, and no random number is drawn.
\<close>

theorem addGrain_unrecognized:
  "style \<notin> {''colorful'', ''parallel'', ''red'', ''invert''} \<Longrightarrow>
     addGrain rrange px (Some style) g = (px, g)"
  by (simp add: addGrain_def)

theorem addGrain_unrecognized_witness:
  "''nonsense'' \<notin> {''colorful'', ''parallel'', ''red'', ''invert''}
   \<and> addGrain fixed_range [10, 20, 30, 255] (Some ''nonsense'') [100] = ([10, 20, 30, 255], [100])"
  using addGrain_unrecognized [of "''nonsense''" fixed_range "[10, 20, 30, 255]" "[100]"]
  by simp

text \<open>
  Claim C9. The default value of the style parameter is \<^verbatim>\<open>"parallelGrain"\<close>, which is none
  of the four recognized modes: a call without a style argument behaves as a call with an
  unrecognized mode and leaves every pixel buffer as it is, instead of applying the
  linked-channel jitter of \<^verbatim>\<open>"parallel"\<close>. On the buffer \<open>[0,0,0,0]\<close> with the draw fixed
  at 10 the two differ: no argument keeps \<open>[0,0,0,0]\<close> and draws nothing, \<^verbatim>\<open>"parallel"\<close>
  gives \<open>[10,10,10,255]\<close> and consumes the draw.
\<close>

theorem addGrain_default_style:
  "addGrain rrange px None g = addGrain rrange px (Some ''parallelGrain'') g
   \<and> ''parallelGrain'' \<notin> {''colorful'', ''parallel'', ''red'', ''invert''}
   \<and> addGrain rrange px None g = (px, g)
   \<and> addGrain fixed_range [0, 0, 0, 0] None [10] = ([0, 0, 0, 0], [10])
   \<and> addGrain fixed_range [0, 0, 0, 0] (Some ''parallel'') [10] = ([10, 10, 10, 255], [])"
proof -
  have "addGrain fixed_range [0, 0, 0, 0] (Some ''parallel'') [10] = ([10, 10, 10, 255], [])"
    by (simp add: addGrain_def parallelGrain_def parallelGrain_loop.simps parallelGrain_body_def
        fixed_range_def assign_op_def store_def ToUint8Clamp_def js_add_def)
  then show ?thesis
    by (simp add: addGrain_def)
qed

text \<open>
  Claim C4. For every pixel buffer, after \<^verbatim>\<open>addGrain\<close> with mode \<^verbatim>\<open>"colorful"\<close> or
  \<^verbatim>\<open>"parallel"\<close> every alpha value of the output (the indices \<open>j\<close> with \<open>j mod 4 = 3\<close>) is
  exactly 255, whatever the input alpha was; the buffer keeps its length.
\<close>

theorem addGrain_alpha:
  assumes "style = ''colorful'' \<or> style = ''parallel''"
    and "j < length px" and "j mod 4 = 3"
  shows "fst (addGrain rrange px (Some style) g) ! j = 255
    \<and> length (fst (addGrain rrange px (Some style) g)) = length px"
proof -
  have idx: "4 * (j div 4) + 3 = j"
    using assms(3) by (rule channel_index)
  have inside: "4 * (j div 4) + 3 < length px"
    using assms(2) by (simp only: idx)
  from assms(1) show ?thesis
  proof
    assume "style = ''colorful''"
    moreover have "fst (colorGrain rrange px g) ! (4 * (j div 4) + 3) = 255"
      using colorGrain_pixel [OF inside, of rrange g] by simp
    ultimately show ?thesis
      by (simp add: addGrain_def idx length_colorGrain)
  next
    assume "style = ''parallel''"
    moreover have "fst (parallelGrain rrange px g) ! (4 * (j div 4) + 3) = 255"
      using parallelGrain_pixel [OF inside, of rrange g] by simp
    ultimately show ?thesis
      by (simp add: addGrain_def idx length_parallelGrain)
  qed
qed

theorem addGrain_alpha_witness:
  "fst (addGrain fixed_range [250, 100, 100, 7] (Some ''colorful'') [10, 0.5, 1.5]) ! 3 = 255
   \<and> fst (addGrain fixed_range [1, 2, 3, 0, 5, 6, 7, 128] (Some ''parallel'') [10, - 3]) ! 7 = 255"
  using addGrain_alpha [of "''colorful''" 3 "[250, 100, 100, 7]" fixed_range "[10, 0.5, 1.5]"]
    addGrain_alpha [of "''parallel''" 7 "[1, 2, 3, 0, 5, 6, 7, 128]" fixed_range "[10, - 3]"]
  by simp

lemma ToUint8Clamp_low: "x \<le> 0 \<Longrightarrow> ToUint8Clamp x = 0"
proof -
  assume "x \<le> 0"
  then have "min (max x 0) 255 = 0"
    by simp
  then show ?thesis
    by (simp add: ToUint8Clamp_def Let_def)
qed

lemma ToUint8Clamp_high: "255 \<le> x \<Longrightarrow> ToUint8Clamp x = 255"
proof -
  assume "255 \<le> x"
  then have "min (max x 0) 255 = 255"
    by simp
  then show ?thesis
    by (simp add: ToUint8Clamp_def Let_def)
qed

lemma red_scenario:
  "addGrain fixed_range [0, 0, 0, 255] (Some ''red'') [100] = ([100, 0, 0, 255], [])"
  by (simp add: addGrain_def redGrain_def redGrain_loop.simps redGrain_body_def
      fixed_range_def assign_op_def store_def ToUint8Clamp_def js_add_def js_sub_def js_mul_def)

lemma parallel_saturation:
  "addGrain fixed_range [250, 100, 100, 7] (Some ''parallel'') [10] = ([255, 110, 110, 255], [])"
  by (simp add: addGrain_def parallelGrain_def parallelGrain_loop.simps parallelGrain_body_def
      fixed_range_def assign_op_def store_def ToUint8Clamp_def js_add_def)

text \<open>
  Claim C2, as stated, fails: on the buffer \<open>[0,0,0,255]\<close> with the draw fixed at 100, mode
  \<^verbatim>\<open>"red"\<close> computes \<open>0 - 100 * 0.5 = -50\<close> for green and blue, and the store into the
  \<^verbatim>\<open>Uint8ClampedArray\<close> keeps 0, not \<open>-50\<close>: the output is \<open>[100,0,0,255]\<close>.
\<close>

theorem addGrain_red_scenario_counterexample:
  "map uint (fst (addGrain fixed_range [0, 0, 0, 255] (Some ''red'') [100])) = [100, 0, 0, 255]
   \<and> map uint (fst (addGrain fixed_range [0, 0, 0, 255] (Some ''red'') [100])) \<noteq> [100, - 50, - 50, 255]"
  by (simp add: red_scenario)

text \<open>
  Claim C2, amended. For the 1x1 pixel buffer \<open>[0,0,0,255]\<close>, \<^verbatim>\<open>addGrain\<close> with mode \<^verbatim>\<open>"red"\<close>
  and the random draw fixed at 100 produces the buffer \<open>[100,0,0,255]\<close>. The loops of the
  jitter and shift modes have no clamping step of their own; an out-of-range result is
  kept as the byte buffer stores it: a Number not above 0 is stored as 0 and a Number not
  below 255 as 255.
\<close>

theorem addGrain_red_scenario:
  "fst (addGrain fixed_range [0, 0, 0, 255] (Some ''red'') [100]) = [100, 0, 0, 255]
   \<and> (j < length px \<and> x \<le> 0 \<longrightarrow> store px j x ! j = 0)
   \<and> (j < length px \<and> 255 \<le> x \<longrightarrow> store px j x ! j = 255)"
  by (simp add: red_scenario store_def ToUint8Clamp_low ToUint8Clamp_high)

theorem addGrain_red_scenario_witness:
  "store [0, 0, 0, 255] 1 (- 50) ! 1 = 0 \<and> store [0, 0, 0, 255] 0 310 ! 0 = 255"
  using addGrain_red_scenario [of 1 "[0, 0, 0, 255]" "- 50"]
    addGrain_red_scenario [of 0 "[0, 0, 0, 255]" 310]
  by simp

lemma red_saturation:
  "addGrain fixed_range [250, 10, 10, 9] (Some ''red'') [60] = ([255, 0, 0, 9], [])"
  by (simp add: addGrain_def redGrain_def redGrain_loop.simps redGrain_body_def
      fixed_range_def assign_op_def store_def ToUint8Clamp_def js_add_def js_sub_def js_mul_def)

lemma colorful_saturation:
  "addGrain fixed_range [250, 100, 100, 7] (Some ''colorful'') [10, 0.5, 1.5]
     = ([255, 100, 102, 255], [])"
  by (simp add: addGrain_def colorGrain_def colorGrain_loop.simps colorGrain_body_def
      fixed_range_def assign_op_def store_def ToUint8Clamp_def js_add_def)

text \<open>
  Claim C5, as stated, fails: on the pixel \<open>[250,100,100,7]\<close> with the draw 10, mode
  \<^verbatim>\<open>"parallel"\<close> stores \<open>[255,110,110,255]\<close>; red moves by 5, green and blue by 10.
\<close>

theorem addGrain_parallel_counterexample:
  "fst (addGrain fixed_range [250, 100, 100, 7] (Some ''parallel'') [10]) = [255, 110, 110, 255]
   \<and> uint (fst (addGrain fixed_range [250, 100, 100, 7] (Some ''parallel'') [10]) ! 0)
         - uint ([250, 100, 100, 7 :: byte] ! 0)
       \<noteq> uint (fst (addGrain fixed_range [250, 100, 100, 7] (Some ''parallel'') [10]) ! 1)
         - uint ([250, 100, 100, 7 :: byte] ! 1)"
  by (simp add: parallel_saturation)

text \<open>
  Claim C5, amended. For every pixel buffer under mode \<^verbatim>\<open>"parallel"\<close>: for every pixel \<open>p\<close>,
  one value is drawn, once, by \<^verbatim>\<open>random.range(-15, 15)\<close> (the \<open>p\<close>-th draw of the run), and each
  of red, green and blue is set to the byte conversion (nearest integer, ties to even, kept
  within 0 and 255) of the double sum of its input and that one value; the generator is
  advanced by one draw per pixel. Whenever no channel's sum leaves \<open>[0, 255]\<close> and no
  channel's double sum is halfway between two integers, the output-minus-input differences
  of red, green and blue are equal: each is the integer nearest to the drawn value.
\<close>

theorem addGrain_parallel:
  assumes "4 * p + 3 < length px"
  shows "fst (addGrain rrange px (Some ''parallel'') g) ! (4 * p)
       = ToUint8Clamp (js_add (real (unat (px ! (4 * p)))) (draw rrange (- 15) 15 p g))
   \<and> fst (addGrain rrange px (Some ''parallel'') g) ! (4 * p + 1)
       = ToUint8Clamp (js_add (real (unat (px ! (4 * p + 1)))) (draw rrange (- 15) 15 p g))
   \<and> fst (addGrain rrange px (Some ''parallel'') g) ! (4 * p + 2)
       = ToUint8Clamp (js_add (real (unat (px ! (4 * p + 2)))) (draw rrange (- 15) 15 p g))
   \<and> snd (addGrain rrange px (Some ''parallel'') g)
       = advance rrange (- 15) 15 ((length px + 3) div 4) g
   \<and> (in_range_untied (px ! (4 * p)) (draw rrange (- 15) 15 p g)
        \<and> in_range_untied (px ! (4 * p + 1)) (draw rrange (- 15) 15 p g)
        \<and> in_range_untied (px ! (4 * p + 2)) (draw rrange (- 15) 15 p g)
      \<longrightarrow> uint (fst (addGrain rrange px (Some ''parallel'') g) ! (4 * p)) - uint (px ! (4 * p))
            = \<lfloor>draw rrange (- 15) 15 p g + 1 / 2\<rfloor>
        \<and> uint (fst (addGrain rrange px (Some ''parallel'') g) ! (4 * p + 1)) - uint (px ! (4 * p + 1))
            = \<lfloor>draw rrange (- 15) 15 p g + 1 / 2\<rfloor>
        \<and> uint (fst (addGrain rrange px (Some ''parallel'') g) ! (4 * p + 2)) - uint (px ! (4 * p + 2))
            = \<lfloor>draw rrange (- 15) 15 p g + 1 / 2\<rfloor>)"
proof -
  have eq: "addGrain rrange px (Some ''parallel'') g = parallelGrain rrange px g"
    by (simp add: addGrain_def)
  have c0: "fst (parallelGrain rrange px g) ! (4 * p)
      = ToUint8Clamp (js_add (real (unat (px ! (4 * p)))) (draw rrange (- 15) 15 p g))"
    using parallelGrain_pixel [of p 0 px rrange g] assms by simp
  have c1: "fst (parallelGrain rrange px g) ! (4 * p + 1)
      = ToUint8Clamp (js_add (real (unat (px ! (4 * p + 1)))) (draw rrange (- 15) 15 p g))"
    using parallelGrain_pixel [of p 1 px rrange g] assms by simp
  have c2: "fst (parallelGrain rrange px g) ! (4 * p + 2)
      = ToUint8Clamp (js_add (real (unat (px ! (4 * p + 2)))) (draw rrange (- 15) 15 p g))"
    using parallelGrain_pixel [of p 2 px rrange g] assms by simp
  show ?thesis
    unfolding eq c0 c1 c2 snd_parallelGrain
    by (intro conjI impI refl; elim conjE; simp only: stored_difference)
qed

theorem addGrain_parallel_witness:
  "fst (addGrain fixed_range [250, 100, 100, 7, 1, 2, 3, 4] (Some ''parallel'') [10, 5 / 4]) ! 4 = 2
   \<and> fst (addGrain fixed_range [250, 100, 100, 7, 1, 2, 3, 4] (Some ''parallel'') [10, 5 / 4]) ! 5 = 3
   \<and> fst (addGrain fixed_range [250, 100, 100, 7, 1, 2, 3, 4] (Some ''parallel'') [10, 5 / 4]) ! 6 = 4
   \<and> snd (addGrain fixed_range [250, 100, 100, 7, 1, 2, 3, 4] (Some ''parallel'') [10, 5 / 4]) = []
   \<and> in_range_untied 1 (5 / 4) \<and> in_range_untied 2 (5 / 4) \<and> in_range_untied 3 (5 / 4)
   \<and> uint (fst (addGrain fixed_range [250, 100, 100, 7, 1, 2, 3, 4] (Some ''parallel'') [10, 5 / 4]) ! 4)
         - uint (1 :: byte) = 1"
  using addGrain_parallel [of 1 "[250, 100, 100, 7, 1, 2, 3, 4]" fixed_range "[10, 5 / 4]"]
  by (simp add: draw_def fixed_range_def ToUint8Clamp_def advance_numeral js_add_def
      in_range_untied_def frac_def)

text \<open>
  Claim C6, as stated, fails: on the pixel \<open>[250,10,10,9]\<close> with the draw 60, mode \<^verbatim>\<open>"red"\<close>
  stores \<open>[255,0,0,9]\<close>: red rises by 5, not by 60, and green falls by 10, not by 30.
\<close>

theorem addGrain_red_counterexample:
  "fst (addGrain fixed_range [250, 10, 10, 9] (Some ''red'') [60]) = [255, 0, 0, 9]
   \<and> real_of_int (uint (fst (addGrain fixed_range [250, 10, 10, 9] (Some ''red'') [60]) ! 0))
       \<noteq> real_of_int (uint ([250, 10, 10, 9 :: byte] ! 0)) + 60
   \<and> real_of_int (uint (fst (addGrain fixed_range [250, 10, 10, 9] (Some ''red'') [60]) ! 1))
       \<noteq> real_of_int (uint ([250, 10, 10, 9 :: byte] ! 1)) - 60 / 2"
  by (simp add: red_saturation)

text \<open>
  Claim C6, amended. For every pixel buffer under mode \<^verbatim>\<open>"red"\<close>: for every pixel \<open>p\<close>, one
  value is drawn by \<^verbatim>\<open>random.range(50, 100)\<close> (the \<open>p\<close>-th draw of the run); the red channel
  is set to the byte conversion (nearest integer, ties to even, kept within 0 and 255) of
  the double sum of red and that value, the green and blue channels each to the byte
  conversion of the double difference of the channel and half that value, and the alpha
  channel is left unchanged. The buffer keeps its length and the generator is advanced by
  one draw per pixel.
\<close>

theorem addGrain_red:
  assumes "4 * p + 3 < length px"
  shows "fst (addGrain rrange px (Some ''red'') g) ! (4 * p)
       = ToUint8Clamp (js_add (real (unat (px ! (4 * p)))) (draw rrange 50 100 p g))
   \<and> fst (addGrain rrange px (Some ''red'') g) ! (4 * p + 1)
       = ToUint8Clamp (js_sub (real (unat (px ! (4 * p + 1)))) (js_mul (draw rrange 50 100 p g) 0.5))
   \<and> fst (addGrain rrange px (Some ''red'') g) ! (4 * p + 2)
       = ToUint8Clamp (js_sub (real (unat (px ! (4 * p + 2)))) (js_mul (draw rrange 50 100 p g) 0.5))
   \<and> fst (addGrain rrange px (Some ''red'') g) ! (4 * p + 3) = px ! (4 * p + 3)
   \<and> length (fst (addGrain rrange px (Some ''red'') g)) = length px
   \<and> snd (addGrain rrange px (Some ''red'') g)
       = advance rrange 50 100 ((length px + 3) div 4) g"
proof -
  have eq: "addGrain rrange px (Some ''red'') g = redGrain rrange px g"
    by (simp add: addGrain_def)
  have c0: "fst (redGrain rrange px g) ! (4 * p)
      = ToUint8Clamp (js_add (real (unat (px ! (4 * p)))) (draw rrange 50 100 p g))"
    using redGrain_pixel [of p 0 px rrange g] assms by simp
  have c1: "fst (redGrain rrange px g) ! (4 * p + 1)
      = ToUint8Clamp (js_sub (real (unat (px ! (4 * p + 1)))) (js_mul (draw rrange 50 100 p g) 0.5))"
    using redGrain_pixel [of p 1 px rrange g] assms by simp
  have c2: "fst (redGrain rrange px g) ! (4 * p + 2)
      = ToUint8Clamp (js_sub (real (unat (px ! (4 * p + 2)))) (js_mul (draw rrange 50 100 p g) 0.5))"
    using redGrain_pixel [of p 2 px rrange g] assms by simp
  have c3: "fst (redGrain rrange px g) ! (4 * p + 3) = px ! (4 * p + 3)"
    using redGrain_pixel [of p 3 px rrange g] assms by simp
  show ?thesis
    unfolding eq by (intro conjI c0 c1 c2 c3 length_redGrain snd_redGrain)
qed

theorem addGrain_red_witness:
  "fst (addGrain fixed_range [0, 0, 0, 255, 100, 100, 90, 3] (Some ''red'') [100, 51]) ! 4 = 151
   \<and> fst (addGrain fixed_range [0, 0, 0, 255, 100, 100, 90, 3] (Some ''red'') [100, 51]) ! 5 = 74
   \<and> fst (addGrain fixed_range [0, 0, 0, 255, 100, 100, 90, 3] (Some ''red'') [100, 51]) ! 6 = 64
   \<and> fst (addGrain fixed_range [0, 0, 0, 255, 100, 100, 90, 3] (Some ''red'') [100, 51]) ! 7 = 3
   \<and> snd (addGrain fixed_range [0, 0, 0, 255, 100, 100, 90, 3] (Some ''red'') [100, 51]) = []"
  using addGrain_red [of 1 "[0, 0, 0, 255, 100, 100, 90, 3]" fixed_range "[100, 51]"]
  by (simp add: draw_def fixed_range_def ToUint8Clamp_def advance_numeral
      js_add_def js_sub_def js_mul_def)

text \<open>
  Claim C7, as stated, fails: on the pixel \<open>[250,100,100,7]\<close> with the draws 10, 0.5 and 1.5,
  mode \<^verbatim>\<open>"colorful"\<close> stores \<open>[255,100,102,255]\<close>: red rises by 5, not by 10, and green by 0,
  not by 0.5.
\<close>

theorem addGrain_colorful_counterexample:
  "fst (addGrain fixed_range [250, 100, 100, 7] (Some ''colorful'') [10, 0.5, 1.5])
     = [255, 100, 102, 255]
   \<and> real_of_int (uint (fst (addGrain fixed_range [250, 100, 100, 7] (Some ''colorful'') [10, 0.5, 1.5]) ! 0))
       \<noteq> real_of_int (uint ([250, 100, 100, 7 :: byte] ! 0)) + 10
   \<and> real_of_int (uint (fst (addGrain fixed_range [250, 100, 100, 7] (Some ''colorful'') [10, 0.5, 1.5]) ! 1))
       \<noteq> real_of_int (uint ([250, 100, 100, 7 :: byte] ! 1)) + 0.5"
  using colorful_saturation by simp

text \<open>
  Claim C7, amended. For every pixel buffer under mode \<^verbatim>\<open>"colorful"\<close>: for every pixel \<open>p\<close>,
  three separate values are drawn by \<^verbatim>\<open>random.range(-25, 25)\<close>, one per colour channel (the
  draws \<open>3p\<close>, \<open>3p + 1\<close> and \<open>3p + 2\<close> of the run, for red, green and blue in this order), and
  each channel is set to the byte conversion (nearest integer, ties to even, kept within 0
  and 255) of the double sum of its input and its own draw. The buffer keeps its length
  and the generator is advanced by three draws per pixel.
\<close>

theorem addGrain_colorful:
  assumes "4 * p + 3 < length px"
  shows "fst (addGrain rrange px (Some ''colorful'') g) ! (4 * p)
       = ToUint8Clamp (js_add (real (unat (px ! (4 * p)))) (draw rrange (- 25) 25 (3 * p) g))
   \<and> fst (addGrain rrange px (Some ''colorful'') g) ! (4 * p + 1)
       = ToUint8Clamp (js_add (real (unat (px ! (4 * p + 1)))) (draw rrange (- 25) 25 (3 * p + 1) g))
   \<and> fst (addGrain rrange px (Some ''colorful'') g) ! (4 * p + 2)
       = ToUint8Clamp (js_add (real (unat (px ! (4 * p + 2)))) (draw rrange (- 25) 25 (3 * p + 2) g))
   \<and> length (fst (addGrain rrange px (Some ''colorful'') g)) = length px
   \<and> snd (addGrain rrange px (Some ''colorful'') g)
       = advance rrange (- 25) 25 (3 * ((length px + 3) div 4)) g"
proof -
  have eq: "addGrain rrange px (Some ''colorful'') g = colorGrain rrange px g"
    by (simp add: addGrain_def)
  have c0: "fst (colorGrain rrange px g) ! (4 * p)
      = ToUint8Clamp (js_add (real (unat (px ! (4 * p)))) (draw rrange (- 25) 25 (3 * p) g))"
    using colorGrain_pixel [of p 0 px rrange g] assms by simp
  have c1: "fst (colorGrain rrange px g) ! (4 * p + 1)
      = ToUint8Clamp (js_add (real (unat (px ! (4 * p + 1)))) (draw rrange (- 25) 25 (3 * p + 1) g))"
    using colorGrain_pixel [of p 1 px rrange g] assms by simp
  have c2: "fst (colorGrain rrange px g) ! (4 * p + 2)
      = ToUint8Clamp (js_add (real (unat (px ! (4 * p + 2)))) (draw rrange (- 25) 25 (3 * p + 2) g))"
    using colorGrain_pixel [of p 2 px rrange g] assms by simp
  show ?thesis
    unfolding eq by (intro conjI c0 c1 c2 length_colorGrain snd_colorGrain)
qed

theorem addGrain_colorful_witness:
  "fst (addGrain fixed_range [250, 100, 100, 7, 1, 2, 30, 4] (Some ''colorful'')
          [10, 0.5, 1.5, 2.5, 3.5, - 7]) ! 4 = 4
   \<and> fst (addGrain fixed_range [250, 100, 100, 7, 1, 2, 30, 4] (Some ''colorful'')
          [10, 0.5, 1.5, 2.5, 3.5, - 7]) ! 5 = 6
   \<and> fst (addGrain fixed_range [250, 100, 100, 7, 1, 2, 30, 4] (Some ''colorful'')
          [10, 0.5, 1.5, 2.5, 3.5, - 7]) ! 6 = 23
   \<and> snd (addGrain fixed_range [250, 100, 100, 7, 1, 2, 30, 4] (Some ''colorful'')
          [10, 0.5, 1.5, 2.5, 3.5, - 7]) = []"
  using addGrain_colorful [of 1 "[250, 100, 100, 7, 1, 2, 30, 4]" fixed_range
      "[10, 0.5, 1.5, 2.5, 3.5, - 7]"]
  by (simp add: draw_def fixed_range_def ToUint8Clamp_def advance_numeral js_add_def)

subsection \<open>initiateSeed\<close>

lemma same_draws_advance:
  assumes "same_draws R r1 r2" and "R g h"
  shows "R (advance r1 lo hi n g) (advance r2 lo hi n h)"
  using assms(2)
proof (induction n arbitrary: g h)
  case 0
  then show ?case by simp
next
  case (Suc n)
  from assms(1) Suc.prems have "R (snd (r1 lo hi g)) (snd (r2 lo hi h))"
    by (simp add: same_draws_def)
  then show ?case
    by (simp add: Suc.IH)
qed

lemma same_draws_draw:
  assumes "same_draws R r1 r2" and "R g h"
  shows "draw r1 lo hi n g = draw r2 lo hi n h"
proof -
  have "R (advance r1 lo hi n g) (advance r2 lo hi n h)"
    using assms by (rule same_draws_advance)
  with assms(1) show ?thesis
    by (simp add: same_draws_def draw_def)
qed

lemma library_seeded_same_draws:
  "same_draws (\<lambda>w w'. seeded w \<noteq> None \<and> seeded w' = seeded w)
     (library_range seeded_range scale Math_random) (library_range seeded_range scale Math_random)"
  by (auto simp add: same_draws_def library_range_def split_def)

lemma Number_toString_of_nat:
  assumes "k < 2 ^ 53"
  shows "Number_toString other (real k) = decimal k"
proof -
  have "real k < 2 ^ 53"
    using assms by (metis of_nat_less_iff of_nat_numeral of_nat_power)
  then show ?thesis
    by (simp add: Number_toString_def)
qed

lemma fresh_seed_nat:
  assumes "binary64 r = r" and "0 \<le> r" and "r < 1"
  shows "nat \<lfloor>js_mul r 1000000\<rfloor> \<le> 999999"
  using fresh_seed_range(2) [OF assms] unfolding js_mul_def by linarith

lemma String_fresh_seed:
  assumes "binary64 r = r" and "0 \<le> r" and "r < 1"
  shows "String other (JStr (String other (JNum (of_int \<lfloor>js_mul r 1000000\<rfloor>))))
    = decimal (nat \<lfloor>js_mul r 1000000\<rfloor>)"
proof -
  define k where "k = nat \<lfloor>js_mul r 1000000\<rfloor>"
  have "0 \<le> \<lfloor>js_mul r 1000000\<rfloor>"
    using fresh_seed_range(1) [OF assms] by (simp only: js_mul_def)
  then have k: "real_of_int \<lfloor>js_mul r 1000000\<rfloor> = real k"
    by (simp add: k_def)
  have "k \<le> 999999"
    unfolding k_def using assms by (rule fresh_seed_nat)
  then have "k < 2 ^ 53"
    by simp
  then have "Number_toString other (real k) = decimal k"
    by (rule Number_toString_of_nat)
  then show ?thesis
    by (simp only: String.simps k k_def [symmetric])
qed

lemma falsy_seed:
  "(if seed = JUndefined then JNum 0 else seed) = JNum 0 \<or> falsy (if seed = JUndefined then JNum 0 else seed)
     \<longleftrightarrow> falsy seed"
  by (cases seed) simp_all

lemma initiateSeed_falsy:
  "falsy seed \<Longrightarrow> initiateSeed other Math_random seed w =
      (String other (JStr (String other (JNum (of_int \<lfloor>js_mul (fst (Math_random (math w))) 1000000\<rfloor>)))),
       w\<lparr>math := snd (Math_random (math w))\<rparr>)"
  using falsy_seed [of seed] by (simp add: initiateSeed_def Let_def split_def)

lemma initiateSeed_truthy:
  "\<not> falsy seed \<Longrightarrow> initiateSeed other Math_random seed w = (String other seed, w)"
proof -
  assume truthy: "\<not> falsy seed"
  then have "seed \<noteq> JUndefined"
    by auto
  with truthy show ?thesis
    using falsy_seed [of seed] by (simp add: initiateSeed_def Let_def)
qed

lemma seeded_initiateSeed: "seeded (snd (initiateSeed other Math_random seed w)) = seeded w"
  by (cases "falsy seed") (simp_all add: initiateSeed_falsy initiateSeed_truthy)

lemma unseeded_example:
  "draw (library_range fixed_range (\<lambda>lo hi v. js_add (js_mul v (js_sub hi lo)) lo) (fixed_range 0 1))
      0 1 0 \<lparr>seeded = None, math = [1 / 2, 0]\<rparr> = 1 / 2"
  "draw (library_range fixed_range (\<lambda>lo hi v. js_add (js_mul v (js_sub hi lo)) lo) (fixed_range 0 1))
      0 1 0 (snd (initiateSeed other (fixed_range 0 1) (JNum 0) \<lparr>seeded = None, math = [1 / 2, 0]\<rparr>))
    = 0"
  by (simp_all add: draw_def library_range_def initiateSeed_def fixed_range_def
      js_add_def js_mul_def js_sub_def)

text \<open>
  Claim C10. \<^verbatim>\<open>initiateSeed\<close> never draws from the seeded generator of
  \<^verbatim>\<open>canvas-sketch-util/random\<close>: the state of that generator is the same after the call, and
  once the library is seeded every later draw of \<^verbatim>\<open>random.range\<close> is the one it would have
  been without the call. For every truthy seed argument the result is \<^verbatim>\<open>String(seed)\<close>
  and nothing is drawn at all. For 0 and every other falsy argument (also for no
  argument) the result is the decimal string of the integer \<^verbatim>\<open>Math.floor(r * 1000000)\<close>,
  which lies in \<open>[0, 999999]\<close>, where \<open>r\<close> is a fresh draw of \<^verbatim>\<open>Math.random()\<close>, a double with
  \<open>0 \<le> r < 1\<close>; only the state of \<^verbatim>\<open>Math.random\<close> advances.

  The seeding matters. An unseeded library takes its numbers from \<^verbatim>\<open>Math.random\<close>, and there
  the call changes its next draw: with \<^verbatim>\<open>Math.random\<close> giving 0.5 and then 0, the library's
  next \<^verbatim>\<open>random.range(0, 1)\<close> is 0.5 before a call \<^verbatim>\<open>initiateSeed(0)\<close> and 0 after it.
\<close>

theorem initiateSeed_result:
  assumes "binary64 (fst (Math_random (math w))) = fst (Math_random (math w))"
    and "0 \<le> fst (Math_random (math w))" and "fst (Math_random (math w)) < 1"
  shows "seeded (snd (initiateSeed other Math_random seed w)) = seeded w
    \<and> (seeded w \<noteq> None \<longrightarrow>
          draw (library_range seeded_range scale Math_random) lo hi n
               (snd (initiateSeed other Math_random seed w))
            = draw (library_range seeded_range scale Math_random) lo hi n w)
    \<and> (\<not> falsy seed \<longrightarrow> initiateSeed other Math_random seed w = (String other seed, w))
    \<and> (falsy seed \<longrightarrow>
          fst (initiateSeed other Math_random seed w)
            = decimal (nat \<lfloor>js_mul (fst (Math_random (math w))) 1000000\<rfloor>)
          \<and> nat \<lfloor>js_mul (fst (Math_random (math w))) 1000000\<rfloor> \<le> 999999
          \<and> snd (initiateSeed other Math_random seed w) = w\<lparr>math := snd (Math_random (math w))\<rparr>)
    \<and> draw (library_range fixed_range (\<lambda>lo hi v. js_add (js_mul v (js_sub hi lo)) lo) (fixed_range 0 1))
          0 1 0 \<lparr>seeded = None, math = [1 / 2, 0]\<rparr> = 1 / 2
    \<and> draw (library_range fixed_range (\<lambda>lo hi v. js_add (js_mul v (js_sub hi lo)) lo) (fixed_range 0 1))
          0 1 0 (snd (initiateSeed other (fixed_range 0 1) (JNum 0) \<lparr>seeded = None, math = [1 / 2, 0]\<rparr>))
        = 0"
proof (intro conjI impI)
  show "seeded (snd (initiateSeed other Math_random seed w)) = seeded w"
    by (rule seeded_initiateSeed)
next
  assume "seeded w \<noteq> None"
  then have "seeded w \<noteq> None \<and> seeded (snd (initiateSeed other Math_random seed w)) = seeded w"
    by (simp add: seeded_initiateSeed)
  with library_seeded_same_draws
  have "draw (library_range seeded_range scale Math_random) lo hi n w
      = draw (library_range seeded_range scale Math_random) lo hi n
          (snd (initiateSeed other Math_random seed w))"
    by (rule same_draws_draw)
  then show "draw (library_range seeded_range scale Math_random) lo hi n
               (snd (initiateSeed other Math_random seed w))
      = draw (library_range seeded_range scale Math_random) lo hi n w"
    by (rule sym)
next
  assume "\<not> falsy seed"
  then show "initiateSeed other Math_random seed w = (String other seed, w)"
    by (rule initiateSeed_truthy)
next
  assume "falsy seed"
  then show "fst (initiateSeed other Math_random seed w)
      = decimal (nat \<lfloor>js_mul (fst (Math_random (math w))) 1000000\<rfloor>)"
    by (simp only: initiateSeed_falsy fst_conv String_fresh_seed [OF assms])
next
  show "nat \<lfloor>js_mul (fst (Math_random (math w))) 1000000\<rfloor> \<le> 999999"
    using assms by (rule fresh_seed_nat)
next
  assume "falsy seed"
  then show "snd (initiateSeed other Math_random seed w) = w\<lparr>math := snd (Math_random (math w))\<rparr>"
    by (simp only: initiateSeed_falsy snd_conv)
next
  show "draw (library_range fixed_range (\<lambda>lo hi v. js_add (js_mul v (js_sub hi lo)) lo) (fixed_range 0 1))
      0 1 0 \<lparr>seeded = None, math = [1 / 2, 0]\<rparr> = 1 / 2"
    by (rule unseeded_example)
next
  show "draw (library_range fixed_range (\<lambda>lo hi v. js_add (js_mul v (js_sub hi lo)) lo) (fixed_range 0 1))
      0 1 0 (snd (initiateSeed other (fixed_range 0 1) (JNum 0) \<lparr>seeded = None, math = [1 / 2, 0]\<rparr>))
    = 0"
    by (rule unseeded_example)
qed

theorem initiateSeed_result_witness:
  "initiateSeed (\<lambda>x. []) (fixed_range 0 1) (JNum 0)
       \<lparr>seeded = Some [3 :: real], math = [1125906662242065 / 2251799813685248, 1 / 2]\<rparr>
     = (''500003'', \<lparr>seeded = Some [3], math = [1 / 2]\<rparr>)
   \<and> draw (library_range fixed_range (\<lambda>lo hi v. v) (fixed_range 0 1)) 0 1 0
        (snd (initiateSeed (\<lambda>x. []) (fixed_range 0 1) (JNum 0)
           \<lparr>seeded = Some [3 :: real], math = [1125906662242065 / 2251799813685248, 1 / 2]\<rparr>))
     = 3
   \<and> initiateSeed (\<lambda>x. []) (fixed_range 0 1) JUndefined \<lparr>seeded = Some [3 :: real], math = [0]\<rparr>
     = (''0'', \<lparr>seeded = Some [3], math = []\<rparr>)
   \<and> initiateSeed (\<lambda>x. []) (fixed_range 0 1) (JStr ''abc'') \<lparr>seeded = Some [3 :: real], math = [1 / 2]\<rparr>
     = (''abc'', \<lparr>seeded = Some [3], math = [1 / 2]\<rparr>)
   \<and> initiateSeed (\<lambda>x. []) (fixed_range 0 1) (JNum 2024) \<lparr>seeded = Some [3 :: real], math = [1 / 2]\<rparr>
     = (''2024'', \<lparr>seeded = Some [3], math = [1 / 2]\<rparr>)"
proof -
  let ?w1 = "\<lparr>seeded = Some [3 :: real], math = [1125906662242065 / 2251799813685248, 1 / 2 :: real]\<rparr>"
  let ?w2 = "\<lparr>seeded = Some [3 :: real], math = [0 :: real]\<rparr>"
  let ?w3 = "\<lparr>seeded = Some [3 :: real], math = [1 / 2 :: real]\<rparr>"
  have d1: "decimal 500003 = ''500003''" and d2: "decimal 0 = ''0''" and d3: "decimal 2024 = ''2024''"
    by (simp_all add: decimal.simps)
  have "initiateSeed (\<lambda>x. []) (fixed_range 0 1) (JNum 0) ?w1
        = (''500003'', \<lparr>seeded = Some [3], math = [1 / 2]\<rparr>)
      \<and> draw (library_range fixed_range (\<lambda>lo hi v. v) (fixed_range 0 1)) 0 1 0
          (snd (initiateSeed (\<lambda>x. []) (fixed_range 0 1) (JNum 0) ?w1)) = 3"
    using initiateSeed_result [of "fixed_range 0 1" ?w1 "\<lambda>x. []" "JNum 0" fixed_range
        "\<lambda>lo hi v. v" 0 1 0]
    by (simp add: fixed_range_def d1 prod_eq_iff double_500003 seed_500003 draw_def
        library_range_def)
  moreover have "initiateSeed (\<lambda>x. []) (fixed_range 0 1) JUndefined ?w2
      = (''0'', \<lparr>seeded = Some [3], math = []\<rparr>)"
    using initiateSeed_result [of "fixed_range 0 1" ?w2 "\<lambda>x. []" JUndefined fixed_range
        "\<lambda>lo hi v. v" 0 1 0]
    by (simp add: fixed_range_def d2 prod_eq_iff js_mul_def)
  moreover have "initiateSeed (\<lambda>x. []) (fixed_range 0 1) (JStr ''abc'') ?w3 = (''abc'', ?w3)"
    using initiateSeed_result [of "fixed_range 0 1" ?w3 "\<lambda>x. []" "JStr ''abc''" fixed_range
        "\<lambda>lo hi v. v" 0 1 0]
    by (simp add: fixed_range_def)
  moreover have "initiateSeed (\<lambda>x. []) (fixed_range 0 1) (JNum 2024) ?w3 = (''2024'', ?w3)"
    using initiateSeed_result [of "fixed_range 0 1" ?w3 "\<lambda>x. []" "JNum 2024" fixed_range
        "\<lambda>lo hi v. v" 0 1 0]
    by (simp add: fixed_range_def Number_toString_def d3)
  ultimately show ?thesis
    by blast
qed

end
